theory Spec2Isabelle
  imports Complex_Main
begin

section \<open>Floating-point values of the notebook\<close>

text \<open>
  Every number of \<^verbatim>\<open>post.ipynb\<close> is a NumPy \<^verbatim>\<open>float64\<close>: the fields of a
  pandas row, the grids, the parameter vectors handed over by the optimiser and the
  sampler. NumPy never raises on a division by zero or an invalid operation: it returns
  an infinity or NaN (with a warning). The model keeps these special values and computes
  exactly on the finite ones: a finite value is a real number, rounding, overflow and
  underflow are not modelled, and the two zeros of IEEE 754 are one value (a nonzero
  number divided by zero gives the infinity with the sign of the numerator).
\<close>

datatype fl = Fin real | PInf | NInf | NaN

definition inf_sgn :: "real \<Rightarrow> fl" where
  \<comment> \<open>the infinity with the sign of \<open>s\<close>; NaN for \<open>s = 0\<close> (as in \<open>inf * 0\<close>, \<open>0 / 0\<close>)\<close>
  "inf_sgn s = (if s = 0 then NaN else if 0 < s then PInf else NInf)"

instantiation fl :: comm_monoid_add
begin

definition zero_fl :: fl where
  "zero_fl = Fin 0"

definition plus_fl :: "fl \<Rightarrow> fl \<Rightarrow> fl" where
  "plus_fl a b =
     (case a of
        NaN \<Rightarrow> NaN
      | PInf \<Rightarrow> (case b of NaN \<Rightarrow> NaN | NInf \<Rightarrow> NaN | _ \<Rightarrow> PInf)
      | NInf \<Rightarrow> (case b of NaN \<Rightarrow> NaN | PInf \<Rightarrow> NaN | _ \<Rightarrow> NInf)
      | Fin x \<Rightarrow> (case b of Fin y \<Rightarrow> Fin (x + y) | _ \<Rightarrow> b))"

instance
proof
  fix a b c :: fl
  show "a + b + c = a + (b + c)"
    by (cases a; cases b; cases c; simp add: plus_fl_def)
  show "a + b = b + a"
    by (cases a; cases b; simp add: plus_fl_def)
  show "0 + a = a"
    by (cases a; simp add: plus_fl_def zero_fl_def)
qed

end

instantiation fl :: "{one, uminus, minus, times, inverse}"
begin

definition one_fl :: fl where
  "one_fl = Fin 1"

definition uminus_fl :: "fl \<Rightarrow> fl" where
  "uminus_fl a = (case a of Fin x \<Rightarrow> Fin (- x) | PInf \<Rightarrow> NInf | NInf \<Rightarrow> PInf | NaN \<Rightarrow> NaN)"

definition minus_fl :: "fl \<Rightarrow> fl \<Rightarrow> fl" where
  "minus_fl a b = a + (- b)"

definition times_fl :: "fl \<Rightarrow> fl \<Rightarrow> fl" where
  "times_fl a b =
     (case a of
        NaN \<Rightarrow> NaN
      | Fin x \<Rightarrow> (case b of Fin y \<Rightarrow> Fin (x * y) | PInf \<Rightarrow> inf_sgn x
                   | NInf \<Rightarrow> inf_sgn (- x) | NaN \<Rightarrow> NaN)
      | PInf \<Rightarrow> (case b of Fin y \<Rightarrow> inf_sgn y | PInf \<Rightarrow> PInf | NInf \<Rightarrow> NInf | NaN \<Rightarrow> NaN)
      | NInf \<Rightarrow> (case b of Fin y \<Rightarrow> inf_sgn (- y) | PInf \<Rightarrow> NInf | NInf \<Rightarrow> PInf
                 | NaN \<Rightarrow> NaN))"

definition divide_fl :: "fl \<Rightarrow> fl \<Rightarrow> fl" where
  "divide_fl a b =
     (case a of
        NaN \<Rightarrow> NaN
      | Fin x \<Rightarrow> (case b of Fin y \<Rightarrow> (if y = 0 then inf_sgn x else Fin (x / y))
                   | PInf \<Rightarrow> Fin 0 | NInf \<Rightarrow> Fin 0 | NaN \<Rightarrow> NaN)
      | PInf \<Rightarrow> (case b of Fin y \<Rightarrow> (if y < 0 then NInf else PInf) | _ \<Rightarrow> NaN)
      | NInf \<Rightarrow> (case b of Fin y \<Rightarrow> (if y < 0 then PInf else NInf) | _ \<Rightarrow> NaN))"

definition inverse_fl :: "fl \<Rightarrow> fl" where
  "inverse_fl a = divide (Fin 1) a"

instance ..

end

text \<open>Comparisons: every comparison with NaN is false.\<close>

definition fl_lt :: "fl \<Rightarrow> fl \<Rightarrow> bool" where
  "fl_lt a b =
     (case a of
        NaN \<Rightarrow> False
      | NInf \<Rightarrow> (case b of Fin y \<Rightarrow> True | PInf \<Rightarrow> True | _ \<Rightarrow> False)
      | Fin x \<Rightarrow> (case b of Fin y \<Rightarrow> x < y | PInf \<Rightarrow> True | _ \<Rightarrow> False)
      | PInf \<Rightarrow> False)"

definition fl_eq :: "fl \<Rightarrow> fl \<Rightarrow> bool" where
  "fl_eq a b = (a \<noteq> NaN \<and> a = b)"

definition fl_le :: "fl \<Rightarrow> fl \<Rightarrow> bool" where
  "fl_le a b = (fl_lt a b \<or> fl_eq a b)"

definition fl_gt :: "fl \<Rightarrow> fl \<Rightarrow> bool" where
  "fl_gt a b = fl_lt b a"

definition fl_ge :: "fl \<Rightarrow> fl \<Rightarrow> bool" where
  "fl_ge a b = fl_le b a"

definition isnan :: "fl \<Rightarrow> bool" where
  "isnan a = (a = NaN)"

definition isfinite :: "fl \<Rightarrow> bool" where
  "isfinite a = (case a of Fin x \<Rightarrow> True | _ \<Rightarrow> False)"

definition of_mask :: "bool \<Rightarrow> fl" where
  \<comment> \<open>a NumPy boolean used as a factor: \<open>True\<close> is 1.0, \<open>False\<close> is 0.0\<close>
  "of_mask b = (if b then Fin 1 else Fin 0)"

text \<open>Elementary functions: \<^verbatim>\<open>np.sqrt\<close>, \<^verbatim>\<open>np.exp\<close>, \<^verbatim>\<open>np.log\<close> and \<^verbatim>\<open>**\<close>.\<close>

definition fl_sqrt :: "fl \<Rightarrow> fl" where
  "fl_sqrt a =
     (case a of Fin x \<Rightarrow> (if x < 0 then NaN else Fin (sqrt x))
      | PInf \<Rightarrow> PInf | NInf \<Rightarrow> NaN | NaN \<Rightarrow> NaN)"

definition fl_exp :: "fl \<Rightarrow> fl" where
  "fl_exp a = (case a of Fin x \<Rightarrow> Fin (exp x) | PInf \<Rightarrow> PInf | NInf \<Rightarrow> Fin 0 | NaN \<Rightarrow> NaN)"

definition fl_log :: "fl \<Rightarrow> fl" where
  "fl_log a =
     (case a of Fin x \<Rightarrow> (if x < 0 then NaN else if x = 0 then NInf else Fin (ln x))
      | PInf \<Rightarrow> PInf | NInf \<Rightarrow> NaN | NaN \<Rightarrow> NaN)"

definition is_int :: "real \<Rightarrow> bool" where
  "is_int y = (y = of_int \<lfloor>y\<rfloor>)"

definition is_odd_int :: "real \<Rightarrow> bool" where
  "is_odd_int y = (is_int y \<and> odd \<lfloor>y\<rfloor>)"

definition fl_pow :: "fl \<Rightarrow> fl \<Rightarrow> fl" where
  \<comment> \<open>\<^verbatim>\<open>x ** y\<close> on \<^verbatim>\<open>float64\<close>, the \<^verbatim>\<open>pow\<close> of C: \<open>x ** 0\<close> and \<open>1 ** y\<close> are 1 even
      for NaN, a negative base with a non-integer exponent is NaN, \<open>0 ** y\<close> with
      \<open>y < 0\<close> is infinite\<close>
  "fl_pow a b =
     (if b = Fin 0 \<or> a = Fin 1 then Fin 1
      else case a of
        NaN \<Rightarrow> NaN
      | Fin x \<Rightarrow>
          (case b of
             NaN \<Rightarrow> NaN
           | Fin y \<Rightarrow>
               (if 0 < x then Fin (x powr y)
                else if x = 0 then (if 0 < y then Fin 0 else PInf)
                else if is_int y then Fin (x powi \<lfloor>y\<rfloor>) else NaN)
           | PInf \<Rightarrow> (if \<bar>x\<bar> < 1 then Fin 0 else if \<bar>x\<bar> = 1 then Fin 1 else PInf)
           | NInf \<Rightarrow> (if \<bar>x\<bar> < 1 then PInf else if \<bar>x\<bar> = 1 then Fin 1 else Fin 0))
      | PInf \<Rightarrow>
          (case b of
             NaN \<Rightarrow> NaN
           | Fin y \<Rightarrow> (if 0 < y then PInf else Fin 0)
           | PInf \<Rightarrow> PInf
           | NInf \<Rightarrow> Fin 0)
      | NInf \<Rightarrow>
          (case b of
             NaN \<Rightarrow> NaN
           | Fin y \<Rightarrow> (if 0 < y then (if is_odd_int y then NInf else PInf) else Fin 0)
           | PInf \<Rightarrow> PInf
           | NInf \<Rightarrow> Fin 0))"

section \<open>Linear interpolation: \<^verbatim>\<open>np.interp\<close>\<close>

datatype error = ValueError

definition interp_index :: "fl \<Rightarrow> fl list \<Rightarrow> nat" where
  \<comment> \<open>the index \<open>j\<close> with \<open>xp[j] \<le> x < xp[j+1]\<close> that NumPy's binary search finds in an
      increasing \<open>xp\<close>, for \<open>xp[0] \<le> x \<le> xp[-1]\<close>\<close>
  "interp_index x xp = length (takeWhile (\<lambda>v. fl_le v x) xp) - 1"

definition np_interp :: "fl \<Rightarrow> fl list \<Rightarrow> fl list \<Rightarrow> error + fl" where
  \<comment> \<open>\<^verbatim>\<open>np.interp(x, xp, fp)\<close> with the default \<^verbatim>\<open>left = fp[0]\<close>, \<^verbatim>\<open>right = fp[-1]\<close>,
      for one \<open>x\<close>, after NumPy's \<^verbatim>\<open>arr_interp\<close>: an empty table and tables of different
      lengths raise \<^verbatim>\<open>ValueError\<close>; a table of one point has its own branch; otherwise
      a NaN \<open>x\<close> is returned as it is, \<open>x\<close> beyond an end takes the value at that end,
      and inside the table the value is \<open>slope * (x - xp[j]) + fp[j]\<close>\<close>
  "np_interp x xp fp =
     (if xp = [] then Inl ValueError
      else if length fp \<noteq> length xp then Inl ValueError
      else
        let lval = hd fp; rval = last fp in
        if length xp = 1 then
          Inr (if fl_lt x (hd xp) then lval else if fl_gt x (hd xp) then rval else hd fp)
        else if isnan x then Inr x
        else if fl_gt x (last xp) then Inr rval
        else if fl_lt x (hd xp) then Inr lval
        else
          let j = interp_index x xp in
          if j = length xp - 1 then Inr (fp ! j)
          else if fl_eq (xp ! j) x then Inr (fp ! j)
          else
            let slope = (fp ! (j + 1) - fp ! j) / (xp ! (j + 1) - xp ! j);
                r = slope * (x - xp ! j) + fp ! j
            in if isnan r then
                 (let r2 = slope * (x - xp ! (j + 1)) + fp ! (j + 1)
                  in if isnan r2 \<and> fl_eq (fp ! j) (fp ! (j + 1)) then Inr (fp ! j)
                     else Inr r2)
               else Inr r)"

section \<open>The detection efficiency model\<close>

text \<open>
  A star is a row of the stellar table. \<open>cdpp\<close> and \<open>mesthres\<close> are the values
  \<^verbatim>\<open>star[cdpp_cols]\<close> and \<^verbatim>\<open>star[mesthres_cols]\<close>; the durations they belong to are the
  module-level tables \<^verbatim>\<open>cdpp_vals\<close> and \<^verbatim>\<open>mesthres_vals\<close>, read off the column names.
  The gamma distribution is SciPy's: its cumulative distribution function on the reals,
  as a function of shape, location, scale and argument, is a parameter of the model
  (\<open>gamma_cdf\<close>).
\<close>

record star =
  radius :: fl
  mass :: fl
  dataspan :: fl
  dutycycle :: fl
  cdpp :: "fl list"
  mesthres :: "fl list"

record tables =
  cdpp_vals :: "fl list"
  mesthres_vals :: "fl list"
  gamma_cdf :: "real \<Rightarrow> real \<Rightarrow> real \<Rightarrow> real \<Rightarrow> real"

definition pgam :: "tables \<Rightarrow> real \<Rightarrow> real" where
  \<comment> \<open>\<^verbatim>\<open>pgam = gamma(4.65, loc=0.0, scale=0.98)\<close>, frozen\<close>
  "pgam tb = gamma_cdf tb 4.65 0.0 0.98"

definition cdf :: "(real \<Rightarrow> real) \<Rightarrow> fl \<Rightarrow> fl" where
  \<comment> \<open>\<^verbatim>\<open>pgam.cdf(x)\<close>: the distribution function at a finite \<open>x\<close>, 0 and 1 at the
      infinities, NaN at NaN\<close>
  "cdf G x = (case x of Fin r \<Rightarrow> Fin (G r) | PInf \<Rightarrow> Fin 1 | NInf \<Rightarrow> Fin 0 | NaN \<Rightarrow> NaN)"

definition get_duration :: "fl \<Rightarrow> fl \<Rightarrow> fl \<Rightarrow> fl" where
  \<comment> \<open>\<^verbatim>\<open>return 0.25 * period * np.sqrt(1 - e**2) / aor\<close>\<close>
  "get_duration period aor e =
     Fin 0.25 * period * fl_sqrt (Fin 1 - fl_pow e (Fin 2)) / aor"

definition Go4pi :: real where
  "Go4pi = 2945.4625385377644 / (4 * pi * pi)"

definition get_a :: "fl \<Rightarrow> fl \<Rightarrow> fl" where
  \<comment> \<open>\<^verbatim>\<open>return (Go4pi * period * period * mstar) ** (1.0 / 3)\<close>\<close>
  "get_a period mstar = fl_pow (Fin Go4pi * period * period * mstar) (Fin (1 / 3))"

definition get_delta :: "fl \<Rightarrow> fl" where
  \<comment> \<open>\<^verbatim>\<open>def get_delta(k, c=1.0874, s=1.0187):
        delta_max = k * k * (c + s * k)
        return 0.84 * delta_max\<close>\<close>
  "get_delta k =
     (let c = Fin 1.0874; s = Fin 1.0187;
          delta_max = k * k * (c + s * k)
      in Fin 0.84 * delta_max)"

definition re :: fl where
  \<comment> \<open>the default argument \<^verbatim>\<open>re=0.009171\<close> of \<^verbatim>\<open>get_mes\<close>\<close>
  "re = Fin 0.009171"

definition get_mes :: "tables \<Rightarrow> star \<Rightarrow> fl \<Rightarrow> fl \<Rightarrow> fl \<Rightarrow> error + fl" where
  "get_mes tb st period rp tau =
     (case np_interp tau (cdpp_vals tb) (cdpp st) of
        Inl err \<Rightarrow> Inl err
      | Inr sigma \<Rightarrow>
          let k = rp * re / radius st;
              snr = get_delta k * Fin 1000000 / sigma;
              ntrn = dataspan st * dutycycle st / period
          in Inr (snr * fl_sqrt ntrn))"

definition get_pdet :: "tables \<Rightarrow> star \<Rightarrow> fl \<Rightarrow> fl \<Rightarrow> fl \<Rightarrow> fl \<Rightarrow> error + fl" where
  "get_pdet tb st aor period rp e =
     (let tau = get_duration period aor e * Fin 24.0 in
      case get_mes tb st period rp tau of
        Inl err \<Rightarrow> Inl err
      | Inr mes \<Rightarrow>
          (case np_interp tau (mesthres_vals tb) (mesthres st) of
             Inl err \<Rightarrow> Inl err
           | Inr mest \<Rightarrow>
               let x = mes - Fin 4.1 - (mest - Fin 7.1)
               in Inr (cdf (pgam tb) x)))"

definition get_pwin :: "star \<Rightarrow> fl \<Rightarrow> fl" where
  "get_pwin st period =
     (let M = dataspan st / period;
          f = dutycycle st;
          omf = Fin 1.0 - f;
          pw = Fin 1
               - fl_pow omf M
               - M * f * fl_pow omf (M - Fin 1)
               - Fin 0.5 * M * (M - Fin 1) * f * f * fl_pow omf (M - Fin 2);
          msk = (fl_ge pw (Fin 0.0) \<and> fl_ge M (Fin 2.0))
      in pw * of_mask msk)"

definition get_pgeom :: "fl \<Rightarrow> fl \<Rightarrow> fl" where
  \<comment> \<open>\<^verbatim>\<open>return 1.0 / (aor * (1 - e * e)) * (aor > 1.0)\<close>\<close>
  "get_pgeom aor e = Fin 1.0 / (aor * (Fin 1 - e * e)) * of_mask (fl_gt aor (Fin 1.0))"

definition get_completeness :: "tables \<Rightarrow> star \<Rightarrow> fl \<Rightarrow> fl \<Rightarrow> fl \<Rightarrow> bool \<Rightarrow> error + fl" where
  "get_completeness tb st period rp e with_geom =
     (let aor = get_a period (mass st) / radius st in
      case get_pdet tb st aor period rp e of
        Inl err \<Rightarrow> Inl err
      | Inr pdet \<Rightarrow>
          let pwin = get_pwin st period in
          if \<not> with_geom then Inr (pdet * pwin)
          else
            let pgeom = get_pgeom aor e
            in Inr (pdet * pwin * pgeom))"

section \<open>Population inference\<close>

definition period_rng :: "fl \<times> fl" where
  "period_rng = (Fin 50, Fin 300)"

definition rp_rng :: "fl \<times> fl" where
  "rp_rng = (Fin 0.75, Fin 2.5)"

definition unpack3 :: "fl list \<Rightarrow> error + fl \<times> fl \<times> fl" where
  \<comment> \<open>\<^verbatim>\<open>lnf0, beta, alpha = theta\<close>: any other length raises \<^verbatim>\<open>ValueError\<close>\<close>
  "unpack3 theta = (case theta of [lnf0, beta, alpha] \<Rightarrow> Inr (lnf0, beta, alpha)
                    | _ \<Rightarrow> Inl ValueError)"

definition power_law :: "fl \<times> (fl \<times> fl) \<times> fl \<Rightarrow> fl \<Rightarrow> fl" where
  \<comment> \<open>the body of the loop of \<^verbatim>\<open>population_model\<close>:
      \<^verbatim>\<open>n1 = n + 1;  v *= x**n * n1 / (rng[1] ** n1 - rng[0] ** n1)\<close>\<close>
  "power_law xrn v =
     (case xrn of (x, rng, n) \<Rightarrow>
        let n1 = n + Fin 1
        in v * (fl_pow x n * n1 / (fl_pow (snd rng) n1 - fl_pow (fst rng) n1)))"

definition population_at :: "fl \<times> fl \<times> fl \<Rightarrow> fl \<Rightarrow> fl \<Rightarrow> fl" where
  \<comment> \<open>\<^verbatim>\<open>population_model\<close> at one element of its array arguments, after the unpacking:
      \<^verbatim>\<open>v = np.exp(lnf0) * np.ones_like(period)\<close>, then the loop over
      \<^verbatim>\<open>zip((period, rp), (period_rng, rp_rng), (beta, alpha))\<close>\<close>
  "population_at th period rp =
     (case th of (lnf0, beta, alpha) \<Rightarrow>
        let v = fl_exp lnf0 * Fin 1
        in fold power_law
             (zip [period, rp] (zip [period_rng, rp_rng] [beta, alpha])) v)"

definition population_model :: "fl list \<Rightarrow> fl \<Rightarrow> fl \<Rightarrow> error + fl" where
  \<comment> \<open>\<^verbatim>\<open>population_model(theta, period, rp)\<close> on scalars\<close>
  "population_model theta period rp =
     (case unpack3 theta of Inl err \<Rightarrow> Inl err
      | Inr th \<Rightarrow> Inr (population_at th period rp))"

definition population_model1 :: "fl list \<Rightarrow> fl list \<Rightarrow> fl list \<Rightarrow> error + fl list" where
  \<comment> \<open>on two one-dimensional arrays of one length (the periods and radii of the KOIs)\<close>
  "population_model1 theta period rp =
     (case unpack3 theta of Inl err \<Rightarrow> Inl err
      | Inr th \<Rightarrow> Inr (map2 (population_at th) period rp))"

definition population_model2 ::
  "fl list \<Rightarrow> fl list list \<Rightarrow> fl list list \<Rightarrow> error + fl list list" where
  \<comment> \<open>on two two-dimensional arrays of one shape (the grids)\<close>
  "population_model2 theta period rp =
     (case unpack3 theta of Inl err \<Rightarrow> Inl err
      | Inr th \<Rightarrow> Inr (map2 (map2 (population_at th)) period rp))"

text \<open>
  Two-dimensional arrays are lists of rows. The operations are those the cell of
  \<^verbatim>\<open>lnlike\<close> uses: \<^verbatim>\<open>np.meshgrid(period, rp, indexing="ij")\<close>, \<^verbatim>\<open>np.diff\<close> along an axis,
  the slices \<^verbatim>\<open>[:-1]\<close> and \<^verbatim>\<open>[1:]\<close>, elementwise products and sums of arrays of one
  shape, and \<^verbatim>\<open>np.sum\<close>.
\<close>

definition meshgrid_ij :: "fl list \<Rightarrow> fl list \<Rightarrow> fl list list \<times> fl list list" where
  "meshgrid_ij xs ys = (map (\<lambda>x. map (\<lambda>y. x) ys) xs, map (\<lambda>x. ys) xs)"

definition diff1 :: "fl list \<Rightarrow> fl list" where
  \<comment> \<open>\<^verbatim>\<open>np.diff\<close> of a one-dimensional array: \<open>a[1:] - a[:-1]\<close>\<close>
  "diff1 a = map2 (\<lambda>hi lo. hi - lo) (tl a) (butlast a)"

definition diff_axis0 :: "fl list list \<Rightarrow> fl list list" where
  "diff_axis0 a = map2 (map2 (\<lambda>hi lo. hi - lo)) (tl a) (butlast a)"

definition diff_axis1 :: "fl list list \<Rightarrow> fl list list" where
  "diff_axis1 a = map diff1 a"

definition mul2 :: "fl list list \<Rightarrow> fl list list \<Rightarrow> fl list list" where
  "mul2 a b = map2 (map2 (\<lambda>x y. x * y)) a b"

definition add2 :: "fl list list \<Rightarrow> fl list list \<Rightarrow> fl list list" where
  "add2 a b = map2 (map2 (\<lambda>x y. x + y)) a b"

definition scale2 :: "fl \<Rightarrow> fl list list \<Rightarrow> fl list list" where
  "scale2 c a = map (map (\<lambda>x. c * x)) a"

definition sum2 :: "fl list list \<Rightarrow> fl" where
  "sum2 a = sum_list (map sum_list a)"

record dataset =
  period_axis :: "fl list"
  rp_axis :: "fl list"
  comp :: "fl list list"
  koi_periods :: "fl list"
  koi_rps :: "fl list"

definition period_grid :: "dataset \<Rightarrow> fl list list" where
  "period_grid d = fst (meshgrid_ij (period_axis d) (rp_axis d))"

definition rp_grid :: "dataset \<Rightarrow> fl list list" where
  "rp_grid d = snd (meshgrid_ij (period_axis d) (rp_axis d))"

definition vol :: "dataset \<Rightarrow> fl list list" where
  \<comment> \<open>\<^verbatim>\<open>vol = np.diff(period_grid, axis=0)[:, :-1] * np.diff(rp_grid, axis=1)[:-1, :]\<close>\<close>
  "vol d = mul2 (map butlast (diff_axis0 (period_grid d))) (butlast (diff_axis1 (rp_grid d)))"

definition lnlike :: "dataset \<Rightarrow> fl list \<Rightarrow> error + fl" where
  "lnlike d theta =
     (case population_model2 theta (period_grid d) (rp_grid d) of
        Inl err \<Rightarrow> Inl err
      | Inr pm \<Rightarrow>
          let pop = mul2 pm (comp d);
              pop = scale2 (Fin 0.5) (add2 (butlast (map butlast pop)) (tl (map tl pop)));
              norm = sum2 (mul2 pop (vol d))
          in case population_model1 theta (koi_periods d) (koi_rps d) of
               Inl err \<Rightarrow> Inl err
             | Inr pk \<Rightarrow>
                 let ll = sum_list (map fl_log pk) - norm
                 in Inr (if isfinite ll then ll else NInf))"

definition bounds :: "(fl \<times> fl) list" where
  "bounds = [(Fin (- 5), Fin 5), (Fin (- 5), Fin 5), (Fin (- 5), Fin 5)]"

fun prior_loop :: "(fl \<times> fl \<times> fl) list \<Rightarrow> fl option" where
  \<comment> \<open>the loop of \<^verbatim>\<open>lnprob\<close> over \<^verbatim>\<open>zip(theta, bounds)\<close>; \<open>Some r\<close> is \<^verbatim>\<open>return r\<close> from
      inside the loop, \<open>None\<close> is the loop running to its end\<close>
  "prior_loop [] = None"
| "prior_loop ((t, rng) # rest) =
     (if \<not> (fl_lt (fst rng) t \<and> fl_lt t (snd rng)) then Some NInf else prior_loop rest)"

definition lnprob :: "dataset \<Rightarrow> fl list \<Rightarrow> error + fl" where
  "lnprob d theta =
     (case prior_loop (zip theta bounds) of
        Some r \<Rightarrow> Inr r
      | None \<Rightarrow> lnlike d theta)"

section \<open>Reference definitions and example data\<close>

definition curves_ok :: "tables \<Rightarrow> star \<Rightarrow> bool" where
  \<comment> \<open>the tables of durations are not empty and the star has one value per duration, as
      the notebook builds them from one list of column names\<close>
  "curves_ok tb st =
     (cdpp_vals tb \<noteq> [] \<and> length (cdpp st) = length (cdpp_vals tb) \<and>
      mesthres_vals tb \<noteq> [] \<and> length (mesthres st) = length (mesthres_vals tb))"

fun lerp_clamped :: "real \<Rightarrow> (real \<times> real) list \<Rightarrow> real" where
  \<comment> \<open>the specification's interpolation of a curve of \<open>(x, y)\<close> pairs sorted by \<open>x\<close>:
      linear between neighbouring points, the first and the last value outside the
      table (no extrapolation)\<close>
  "lerp_clamped x [] = 0"
| "lerp_clamped x [(x0, y0)] = y0"
| "lerp_clamped x ((x0, y0) # (x1, y1) # rest) =
     (if x \<le> x0 then y0
      else if x < x1 then y0 + (y1 - y0) * (x - x0) / (x1 - x0)
      else lerp_clamped x ((x1, y1) # rest))"

definition pw_raw :: "real \<Rightarrow> real \<Rightarrow> real" where
  \<comment> \<open>the specification's raw window function of \<open>M\<close> expected transits and duty
      cycle \<open>f\<close>, on the reals\<close>
  "pw_raw M f = 1 - (1 - f) powr M - M * f * (1 - f) powr (M - 1)
                  - 0.5 * M * (M - 1) * f\<^sup>2 * (1 - f) powr (M - 2)"

definition mes_offset :: "real \<Rightarrow> real \<Rightarrow> real \<Rightarrow> real \<Rightarrow> real \<Rightarrow> real" where
  \<comment> \<open>the argument \<open>MES - 4.1 - (MES_threshold - 7.1)\<close> of the distribution function, on the
      reals, for interpolated noise and threshold, stellar radius \<open>R\<close>, \<open>N\<close> transits
      and planet radius \<open>r\<close>\<close>
  "mes_offset noise thr R N r =
     (let k = r * 0.009171 / R;
          depth_ppm = 0.84 * k\<^sup>2 * (1.0874 + 1.0187 * k) * 1000000
      in depth_ppm / noise * sqrt N - 4.1 - (thr - 7.1))"

definition ramp_cdf :: "real \<Rightarrow> real \<Rightarrow> real \<Rightarrow> real \<Rightarrow> real" where
  \<comment> \<open>a family of distribution functions supported to the right of the location, used
      in the examples in the place of SciPy's gamma distribution function\<close>
  "ramp_cdf shape loc scale x =
     (let z = (x - loc) / scale in if z \<le> 0 then 0 else z / (shape + z))"

definition thresh :: "real list" where
  \<comment> \<open>the transit durations (hours) of the notebook's \<^verbatim>\<open>thresh\<close>, which name the
      \<^verbatim>\<open>mesthres\<close> columns; the examples give the noise at the same durations\<close>
  "thresh = [1.5, 2.0, 2.5, 3.0, 3.5, 4.5, 5.0, 6.0, 7.5, 9.0, 10.5, 12.0, 12.5, 15.0]"

definition kepler_tables :: tables where
  "kepler_tables = \<lparr>cdpp_vals = map Fin thresh, mesthres_vals = map Fin thresh, gamma_cdf = ramp_cdf\<rparr>"

definition quiet_star :: star where
  \<comment> \<open>the star of the specification's scenario: solar mass and radius, four years of
      data at duty cycle 0.84, noise 30 ppm and threshold 7.1 at every duration\<close>
  "quiet_star =
     \<lparr>radius = Fin 1, mass = Fin 1, dataspan = Fin 1460, dutycycle = Fin 0.84,
      cdpp = map Fin (replicate 14 30), mesthres = map Fin (replicate 14 7.1)\<rparr>"

definition full_duty_star :: star where
  \<comment> \<open>a star that passes the cuts of the notebook (\<open>dataspan > 730.5\<close>,
      \<open>dutycycle > 0.6\<close>), observed without any gap\<close>
  "full_duty_star = quiet_star\<lparr>dataspan := Fin 1000, dutycycle := Fin 1\<rparr>"

definition tab :: "nat \<Rightarrow> nat \<Rightarrow> (nat \<Rightarrow> nat \<Rightarrow> fl) \<Rightarrow> fl list list" where
  \<comment> \<open>the \<open>m\<close> by \<open>n\<close> array with the element \<open>f i j\<close> at row \<open>i\<close>, column \<open>j\<close>\<close>
  "tab m n f = map (\<lambda>i. map (\<lambda>j. f i j) [0..<n]) [0..<m]"

definition well_shaped :: "dataset \<Rightarrow> bool" where
  \<comment> \<open>the shapes the notebook gives its arrays: \<^verbatim>\<open>comp = np.zeros_like(period_grid)\<close>,
      and the periods and radii of the KOIs are two columns of one table\<close>
  "well_shaped d =
     (length (comp d) = length (period_axis d) \<and>
      (\<forall>row\<in>set (comp d). length row = length (rp_axis d)) \<and>
      length (koi_rps d) = length (koi_periods d))"

definition small_survey :: dataset where
  \<comment> \<open>a grid of three periods and two radii with two stars' worth of completeness in
      every node, and one detection\<close>
  "small_survey =
     \<lparr>period_axis = [Fin 50, Fin 175, Fin 300], rp_axis = [Fin 0.75, Fin 2.5],
      comp = [[Fin 2, Fin 2], [Fin 2, Fin 2], [Fin 2, Fin 2]],
      koi_periods = [Fin 100], koi_rps = [Fin 1]\<rparr>"

text \<open>
  The quadrature the specification names, for comparison with the one of \<^verbatim>\<open>lnlike\<close>: the
  midpoint rule takes the integrand at the midpoint of every cell, the occurrence density
  at the mean of the two boundaries on each axis and the completeness as the mean of the
  map at the four corners of the cell, times the cell volume from the grid boundaries.
\<close>

definition midpoints :: "fl list \<Rightarrow> fl list" where
  "midpoints a = map2 (\<lambda>lo hi. Fin 0.5 * (lo + hi)) (butlast a) (tl a)"

definition cell_mean :: "fl list list \<Rightarrow> nat \<Rightarrow> nat \<Rightarrow> fl" where
  "cell_mean c i j =
     Fin 0.25 * (c ! i ! j + c ! (i + 1) ! j + c ! i ! (j + 1) + c ! (i + 1) ! (j + 1))"

definition midpoint_norm :: "fl \<times> fl \<times> fl \<Rightarrow> dataset \<Rightarrow> fl" where
  "midpoint_norm th d =
     (let P = period_axis d; R = rp_axis d
      in sum_list (map (\<lambda>i. sum_list (map (\<lambda>j.
           population_at th (midpoints P ! i) (midpoints R ! j) * cell_mean (comp d) i j
             * (diff1 P ! i * diff1 R ! j))
           [0..<length R - 1])) [0..<length P - 1]))"

definition lnlike_midpoint :: "dataset \<Rightarrow> fl list \<Rightarrow> error + fl" where
  \<comment> \<open>the log-likelihood as the specification words it, with the midpoint rule\<close>
  "lnlike_midpoint d theta =
     (case unpack3 theta of
        Inl err \<Rightarrow> Inl err
      | Inr th \<Rightarrow>
          let norm = midpoint_norm th d;
              ll = sum_list (map fl_log (map2 (population_at th) (koi_periods d) (koi_rps d)))
                   - norm
          in Inr (if isfinite ll then ll else NInf))"

definition one_cell :: dataset where
  \<comment> \<open>the whole domain as one cell, completeness 1 at its four corners, one detection\<close>
  "one_cell =
     \<lparr>period_axis = [Fin 50, Fin 300], rp_axis = [Fin 0.75, Fin 2.5],
      comp = [[Fin 1, Fin 1], [Fin 1, Fin 1]],
      koi_periods = [Fin 100], koi_rps = [Fin 1]\<rparr>"

section \<open>Arithmetic on finite values and on NaN\<close>

lemma plus_Fin [simp]: "Fin x + Fin y = Fin (x + y)"
  by (simp add: plus_fl_def)

lemma uminus_Fin [simp]: "- Fin x = Fin (- x)"
  by (simp add: uminus_fl_def)

lemma minus_Fin [simp]: "Fin x - Fin y = Fin (x - y)"
  by (simp add: minus_fl_def)

lemma times_Fin [simp]: "Fin x * Fin y = Fin (x * y)"
  by (simp add: times_fl_def)

lemma divide_Fin [simp]: "y \<noteq> 0 \<Longrightarrow> Fin x / Fin y = Fin (x / y)"
  by (simp add: divide_fl_def)

lemma times_one_fl [simp]: "a * Fin 1 = a"
  by (cases a; simp add: times_fl_def inf_sgn_def)

lemma NaN_plus [simp]: "NaN + a = NaN" "a + NaN = NaN"
  by (cases a; simp add: plus_fl_def)+

lemma NaN_times [simp]: "NaN * a = NaN" "a * NaN = NaN"
  by (cases a; simp add: times_fl_def)+

lemma NaN_divide [simp]: "NaN / a = NaN" "a / NaN = NaN"
  by (cases a; simp add: divide_fl_def)+

lemma NaN_minus [simp]: "NaN - a = NaN" "a - NaN = NaN"
  by (simp_all add: minus_fl_def uminus_fl_def)

lemma fl_lt_Fin [simp]: "fl_lt (Fin x) (Fin y) = (x < y)"
  by (simp add: fl_lt_def)

lemma fl_gt_Fin [simp]: "fl_gt (Fin x) (Fin y) = (y < x)"
  by (simp add: fl_gt_def)

lemma fl_le_Fin [simp]: "fl_le (Fin x) (Fin y) = (x \<le> y)"
  by (auto simp add: fl_le_def fl_eq_def)

lemma fl_ge_Fin [simp]: "fl_ge (Fin x) (Fin y) = (y \<le> x)"
  by (simp add: fl_ge_def)

lemma fl_cmp_NaN [simp]:
  "\<not> fl_lt NaN a" "\<not> fl_lt a NaN" "\<not> fl_le NaN a" "\<not> fl_le a NaN"
  "\<not> fl_gt NaN a" "\<not> fl_gt a NaN" "\<not> fl_ge NaN a" "\<not> fl_ge a NaN"
  by (cases a; simp add: fl_lt_def fl_le_def fl_gt_def fl_ge_def fl_eq_def)+

lemma fl_pow_pos: "0 < x \<Longrightarrow> fl_pow (Fin x) (Fin y) = Fin (x powr y)"
  by (auto simp add: fl_pow_def)

lemma fl_pow_zero [simp]: "fl_pow a (Fin 0) = Fin 1"
  by (simp add: fl_pow_def)

lemma fl_pow_two: "fl_pow (Fin x) (Fin 2) = Fin (x\<^sup>2)"
proof -
  have "is_int 2" by (simp add: is_int_def)
  moreover have "x powi \<lfloor>2::real\<rfloor> = x\<^sup>2" by simp
  moreover have "0 < x \<Longrightarrow> x powr 2 = x\<^sup>2" by simp
  ultimately show ?thesis by (auto simp add: fl_pow_def)
qed

lemma fl_sqrt_Fin: "0 \<le> x \<Longrightarrow> fl_sqrt (Fin x) = Fin (sqrt x)"
  by (simp add: fl_sqrt_def)

lemma fl_sqrt_NaN [simp]: "fl_sqrt NaN = NaN"
  by (simp add: fl_sqrt_def)

lemma cdf_NaN [simp]: "cdf G NaN = NaN"
  by (simp add: cdf_def)

lemma get_delta_NaN [simp]: "get_delta NaN = NaN"
  by (simp add: get_delta_def)

section \<open>Transit depth\<close>

text \<open>
  C1 (as the code has it). For every finite radius ratio \<open>k\<close> the transit depth is
  \<open>0.84 * k\<^sup>2 * (c + s * k)\<close> with \<open>c = 1.0874\<close> and \<open>s = 1.0187\<close>: the sign inside
  the parenthesis is plus, the convention of the paper, which the docstring of
  \<^verbatim>\<open>get_delta\<close> sets against the minus of the public reference code.
\<close>

theorem get_delta_plus:
  "get_delta (Fin k) = Fin (0.84 * k\<^sup>2 * (1.0874 + 1.0187 * k))"
  by (simp add: get_delta_def power2_eq_square algebra_simps)

text \<open>
  C1 (as the specification has it) fails: at \<open>k = 1\<close> the depth is not
  \<open>0.84 * k\<^sup>2 * (c - s * k)\<close>.
\<close>

theorem get_delta_minus_counterexample:
  "get_delta (Fin 1) \<noteq> Fin (0.84 * 1\<^sup>2 * (1.0874 - 1.0187 * 1))"
  by (simp add: get_delta_def)

section \<open>Interpolation\<close>

lemma lerp_left:
  "xs \<noteq> [] \<Longrightarrow> length ys = length xs \<Longrightarrow> x \<le> hd xs \<Longrightarrow> lerp_clamped x (zip xs ys) = hd ys"
proof (cases xs)
  case Nil then show "xs \<noteq> [] \<Longrightarrow> ?thesis" by simp
next
  case (Cons x0 xs')
  assume len: "length ys = length xs" and le: "x \<le> hd xs"
  then obtain y0 ys' where ys: "ys = y0 # ys'" using Cons by (cases ys) auto
  show ?thesis using Cons ys len le by (cases xs'; cases ys'; simp)
qed

lemma lerp_right:
  "sorted_wrt (<) xs \<Longrightarrow> xs \<noteq> [] \<Longrightarrow> length ys = length xs \<Longrightarrow> last xs \<le> x
    \<Longrightarrow> lerp_clamped x (zip xs ys) = last ys"
proof (induction xs arbitrary: ys)
  case Nil then show ?case by simp
next
  case (Cons x0 xs')
  then obtain y0 ys' where ys: "ys = y0 # ys'" by (cases ys) auto
  show ?case
  proof (cases xs')
    case Nil
    then show ?thesis using Cons.prems ys by simp
  next
    case (Cons x1 xs'')
    with Cons.prems ys obtain y1 ys'' where ys': "ys' = y1 # ys''" by (cases ys') auto
    have "x1 \<le> last xs'" using Cons Cons.prems(1)
      by (cases "xs'' = []") (auto simp add: less_imp_le)
    then have "x1 \<le> x" "x0 < x" using Cons.prems Cons by auto
    moreover have "lerp_clamped x (zip xs' ys') = last ys'"
      using Cons.IH[of ys'] Cons.prems ys Cons by simp
    ultimately show ?thesis using Cons ys ys' by simp
  qed
qed

lemma lerp_segment:
  "sorted_wrt (<) xs \<Longrightarrow> length ys = length xs \<Longrightarrow> j + 1 < length xs \<Longrightarrow> xs ! j \<le> x
    \<Longrightarrow> x < xs ! (j + 1)
    \<Longrightarrow> lerp_clamped x (zip xs ys) =
          ys ! j + (ys ! (j + 1) - ys ! j) * (x - xs ! j) / (xs ! (j + 1) - xs ! j)"
proof (induction xs arbitrary: ys j)
  case Nil then show ?case by simp
next
  case (Cons x0 xs')
  then obtain y0 ys' where ys: "ys = y0 # ys'" by (cases ys) auto
  from Cons.prems obtain x1 xs'' where xs': "xs' = x1 # xs''" by (cases xs') auto
  with Cons.prems ys obtain y1 ys'' where ys': "ys' = y1 # ys''" by (cases ys') auto
  show ?case
  proof (cases j)
    case 0
    then show ?thesis using Cons.prems ys xs' ys' by auto
  next
    case (Suc j')
    have "x1 \<le> xs' ! j'" using Cons.prems(1,3) xs' Suc
      by (cases j') (auto simp add: less_imp_le)
    then have "x1 \<le> x" "x0 < x" using Cons.prems xs' Suc by auto
    moreover have "lerp_clamped x (zip xs' ys') =
          ys' ! j' + (ys' ! (j' + 1) - ys' ! j') * (x - xs' ! j') / (xs' ! (j' + 1) - xs' ! j')"
      using Cons.IH[of ys' j'] Cons.prems ys Suc by simp
    ultimately show ?thesis using xs' ys ys' Suc by simp
  qed
qed

lemma interp_index_Fin:
  "interp_index (Fin x) (map Fin xs) = length (takeWhile (\<lambda>v. v \<le> x) xs) - 1"
proof -
  have "(\<lambda>v. fl_le v (Fin x)) \<circ> Fin = (\<lambda>v. v \<le> x)"
    by (simp add: fun_eq_iff)
  then show ?thesis
    by (simp add: interp_index_def takeWhile_map)
qed

lemma np_interp_lerp:
  assumes srt: "sorted_wrt (<) xs" and ne: "xs \<noteq> []" and len: "length ys = length xs"
  shows "np_interp (Fin x) (map Fin xs) (map Fin ys) = Inr (Fin (lerp_clamped x (zip xs ys)))"
proof -
  have ysne: "ys \<noteq> []" using ne len by auto
  have hd_f: "hd (map Fin xs) = Fin (hd xs)" "hd (map Fin ys) = Fin (hd ys)"
    and last_f: "last (map Fin xs) = Fin (last xs)" "last (map Fin ys) = Fin (last ys)"
    using ne ysne by (simp_all add: hd_map last_map)
  show ?thesis
  proof (cases "length xs = 1")
    case True
    then obtain x0 where xs: "xs = [x0]" by (cases xs) auto
    with len obtain y0 where ys: "ys = [y0]" by (cases ys) auto
    show ?thesis by (simp add: np_interp_def xs ys)
  next
    case False
    note n2 = False
    consider (right) "last xs < x" | (left) "x < hd xs" | (mid) "hd xs \<le> x" "x \<le> last xs"
      by linarith
    then show ?thesis
    proof cases
      case right
      then show ?thesis
        using ne len n2 lerp_right[OF srt ne len, of x]
        by (simp add: np_interp_def hd_f last_f isnan_def Let_def)
    next
      case left
      have "hd xs \<le> last xs" using srt ne
        by (metis hd_conv_nth last_conv_nth sorted_wrt_nth_less less_imp_le
            length_greater_0_conv diff_less zero_less_one le_less linorder_neqE_nat not_less_zero less_nat_zero_code order_refl)
      then have "\<not> last xs < x" using left by linarith
      then show ?thesis
        using ne len n2 left lerp_left[OF ne len, of x]
        by (simp add: np_interp_def hd_f last_f isnan_def Let_def)
    next
      case mid
      define k where "k = length (takeWhile (\<lambda>v. v \<le> x) xs)"
      have k_pos: "0 < k" using mid(1) ne unfolding k_def by (cases xs) auto
      have k_le: "k \<le> length xs" unfolding k_def by (rule length_takeWhile_le)
      have below: "xs ! (k - 1) \<le> x"
      proof -
        have "k - 1 < length (takeWhile (\<lambda>v. v \<le> x) xs)" using k_pos k_def by simp
        then have "takeWhile (\<lambda>v. v \<le> x) xs ! (k - 1) \<le> x"
          using nth_mem set_takeWhileD by (metis (mono_tags, lifting))
        then show ?thesis
          using k_pos k_def by (simp add: takeWhile_nth)
      qed
      have above: "k < length xs \<Longrightarrow> x < xs ! k"
        using nth_length_takeWhile[of "\<lambda>v. v \<le> x" xs] k_def by auto
      have idx: "interp_index (Fin x) (map Fin xs) = k - 1"
        by (simp add: interp_index_Fin k_def)
      have pre: "\<not> last xs < x" "\<not> x < hd xs" using mid by auto
      show ?thesis
      proof (cases "k = length xs")
        case True
        have "last xs = x" using below True mid(2) ne by (simp add: last_conv_nth)
        then have "lerp_clamped x (zip xs ys) = last ys"
          using lerp_right[OF srt ne len, of x] by simp
        moreover have "map Fin ys ! (length xs - 1) = Fin (last ys)"
          using ysne len ne by (simp add: last_conv_nth)
        ultimately show ?thesis
          using ne len n2 pre True
          by (simp add: np_interp_def hd_f last_f isnan_def Let_def idx)
      next
        case False
        then have klt: "k < length xs" using k_le by simp
        define j where "j = k - 1"
        have j1: "j + 1 = k" using k_pos j_def by simp
        have jlt: "j + 1 < length xs" using klt j1 by simp
        have xj: "xs ! j \<le> x" using below j_def by simp
        have xj1: "x < xs ! (j + 1)" using above klt j1 by simp
        have seg: "lerp_clamped x (zip xs ys) =
            ys ! j + (ys ! (j + 1) - ys ! j) * (x - xs ! j) / (xs ! (j + 1) - xs ! j)"
          by (rule lerp_segment[OF srt len jlt xj xj1])
        have nths: "map Fin xs ! j = Fin (xs ! j)" "map Fin xs ! (j + 1) = Fin (xs ! (j + 1))"
            "map Fin ys ! j = Fin (ys ! j)" "map Fin ys ! (j + 1) = Fin (ys ! (j + 1))"
          using jlt len by simp_all
        have dpos: "xs ! (j + 1) - xs ! j \<noteq> 0" using xj xj1 by linarith
        have jne: "j \<noteq> length xs - 1" using jlt by simp
        have idxj: "interp_index (Fin x) (map Fin xs) = j" using idx j_def by simp
        show ?thesis
        proof (cases "xs ! j = x")
          case True
          then show ?thesis
            using ne len n2 pre jne seg nths
            by (simp add: np_interp_def hd_f last_f isnan_def Let_def idxj fl_eq_def)
        next
          case False
          then show ?thesis
            using ne len n2 pre jne seg nths dpos
            by (simp add: np_interp_def hd_f last_f isnan_def Let_def idxj fl_eq_def
                algebra_simps)
        qed
      qed
    qed
  qed
qed

lemma convex_pos:
  fixes y0 y1 :: real
  assumes "0 < y0" "0 < y1" "x0 < x" "x < x1"
  shows "0 < y0 + (y1 - y0) * (x - x0) / (x1 - x0)"
proof -
  define t where "t = (x - x0) / (x1 - x0)"
  have t: "0 < t" "t < 1" using assms by (simp_all add: t_def)
  have "y0 + (y1 - y0) * (x - x0) / (x1 - x0) = y0 + (y1 - y0) * t"
    by (simp add: t_def)
  also have "\<dots> = (1 - t) * y0 + t * y1"
    by (simp add: algebra_simps)
  finally have "y0 + (y1 - y0) * (x - x0) / (x1 - x0) = (1 - t) * y0 + t * y1" .
  moreover have "0 < (1 - t) * y0" "0 < t * y1" using t assms by simp_all
  ultimately show ?thesis by linarith
qed

lemma lerp_pos:
  "ps \<noteq> [] \<Longrightarrow> \<forall>y\<in>set (map snd ps). 0 < y \<Longrightarrow> 0 < lerp_clamped x ps"
proof (induction x ps rule: lerp_clamped.induct)
  case (1 x) then show ?case by simp
next
  case (2 x x0 y0) then show ?case by simp
next
  case (3 x x0 y0 x1 y1 rest)
  show ?case
  proof (cases "x \<le> x0")
    case True then show ?thesis using 3(3) by simp
  next
    case False
    note nle = False
    show ?thesis
    proof (cases "x < x1")
      case True
      then show ?thesis using nle 3(3) convex_pos[of y0 y1 x0 x x1] by simp
    next
      case False
      then show ?thesis using nle 3 by simp
    qed
  qed
qed

lemma np_interp_total:
  "xp \<noteq> [] \<Longrightarrow> length fp = length xp \<Longrightarrow> \<exists>v. np_interp x xp fp = Inr v"
  by (simp add: np_interp_def Let_def)

lemma get_mes_total:
  "curves_ok tb st \<Longrightarrow> \<exists>v. get_mes tb st period rp tau = Inr v"
  using np_interp_total[of "cdpp_vals tb" "cdpp st" tau]
  by (auto simp add: get_mes_def curves_ok_def Let_def)

lemma get_pdet_total:
  "curves_ok tb st \<Longrightarrow> \<exists>v. get_pdet tb st aor period rp e = Inr v"
  using get_mes_total[of tb st period rp "get_duration period aor e * Fin 24.0"]
    np_interp_total[of "mesthres_vals tb" "mesthres st" "get_duration period aor e * Fin 24.0"]
  by (auto simp add: get_pdet_def curves_ok_def Let_def)

section \<open>Detection efficiency\<close>

lemma get_pdet_lerp:
  assumes tb: "cdpp_vals tb = map Fin nx" "mesthres_vals tb = map Fin tx"
    and st: "cdpp st = map Fin ny" "mesthres st = map Fin ty"
      "radius st = Fin R" "dataspan st = Fin D" "dutycycle st = Fin f"
    and curves: "sorted_wrt (<) nx" "nx \<noteq> []" "length ny = length nx"
      "sorted_wrt (<) tx" "tx \<noteq> []" "length ty = length tx"
      "\<forall>y\<in>set ny. 0 < y"
    and dom: "0 < R" "0 \<le> D" "0 \<le> f" "0 < P" "0 < A" "\<epsilon>\<^sup>2 \<le> 1"
    and tau: "tau = 0.25 * P * sqrt (1 - \<epsilon>\<^sup>2) / A * 24"
  shows "0 < lerp_clamped tau (zip nx ny)"
    and "get_pdet tb st (Fin A) (Fin P) (Fin r) (Fin \<epsilon>) =
           Inr (Fin (pgam tb (mes_offset (lerp_clamped tau (zip nx ny))
                                (lerp_clamped tau (zip tx ty)) R (D * f / P) r)))"
proof -
  have dur: "get_duration (Fin P) (Fin A) (Fin \<epsilon>) * Fin 24.0 = Fin tau"
    using dom by (simp add: get_duration_def fl_pow_two fl_sqrt_Fin tau)
  have "zip nx ny \<noteq> []" using curves by (cases nx; cases ny; simp)
  moreover have "set (map snd (zip nx ny)) \<subseteq> set ny" using curves by (simp add: map_snd_zip)
  ultimately show npos: "0 < lerp_clamped tau (zip nx ny)"
    using lerp_pos[of "zip nx ny" tau] curves by blast
  have sig: "np_interp (Fin tau) (map Fin nx) (map Fin ny) = Inr (Fin (lerp_clamped tau (zip nx ny)))"
    using np_interp_lerp[of nx ny tau] curves by simp
  have thr: "np_interp (Fin tau) (map Fin tx) (map Fin ty) = Inr (Fin (lerp_clamped tau (zip tx ty)))"
    using np_interp_lerp[of tx ty tau] curves by simp
  have ntr: "0 \<le> D * f / P" using dom by simp
  have mes: "get_mes tb st (Fin P) (Fin r) (Fin tau) =
      Inr (Fin (0.84 * (r * 0.009171 / R)\<^sup>2 * (1.0874 + 1.0187 * (r * 0.009171 / R)) * 1000000
                / lerp_clamped tau (zip nx ny) * sqrt (D * f / P)))"
    using dom npos ntr
    by (simp add: get_mes_def tb st sig re_def get_delta_def fl_sqrt_Fin power2_eq_square Let_def)
  show "get_pdet tb st (Fin A) (Fin P) (Fin r) (Fin \<epsilon>) =
           Inr (Fin (pgam tb (mes_offset (lerp_clamped tau (zip nx ny))
                                (lerp_clamped tau (zip tx ty)) R (D * f / P) r)))"
    unfolding get_pdet_def dur Let_def mes
    by (simp add: tb st thr cdf_def mes_offset_def Let_def)
qed

text \<open>
  C5. For a star with finite, positive radius and non-negative data span and duty cycle,
  whose noise and threshold curves are tables over increasing durations with positive
  noise, and for finite positive period and scaled semi-major axis (and \<open>e\<^sup>2 \<le> 1\<close>),
  \<^verbatim>\<open>get_pdet\<close> returns the distribution function of the gamma distribution with shape
  4.65, location 0 and scale 0.98 at
  \<open>x = MES - 4.1 - (MES_threshold - 7.1)\<close>, where
  \<open>MES = depth_ppm / noise_ppm * sqrt numTransits\<close>,
  \<open>numTransits = dataspan * dutycycle / period\<close>, the radius ratio is
  \<open>k = rp * 0.009171 / radius\<close>, and the noise and the threshold are the curves
  interpolated linearly at the transit duration (in hours), clamped at the ends.
\<close>

theorem get_pdet_formula:
  assumes tb: "cdpp_vals tb = map Fin nx" "mesthres_vals tb = map Fin tx"
    and st: "cdpp st = map Fin ny" "mesthres st = map Fin ty"
      "radius st = Fin R" "dataspan st = Fin D" "dutycycle st = Fin f"
    and curves: "sorted_wrt (<) nx" "nx \<noteq> []" "length ny = length nx"
      "sorted_wrt (<) tx" "tx \<noteq> []" "length ty = length tx"
      "\<forall>y\<in>set ny. 0 < y"
    and dom: "0 < R" "0 \<le> D" "0 \<le> f" "0 < P" "0 < A" "\<epsilon>\<^sup>2 \<le> 1"
  shows "get_pdet tb st (Fin A) (Fin P) (Fin r) (Fin \<epsilon>) =
           (let tau = 0.25 * P * sqrt (1 - \<epsilon>\<^sup>2) / A * 24;
                k = r * 0.009171 / R;
                depth_ppm = 0.84 * k\<^sup>2 * (1.0874 + 1.0187 * k) * 1000000;
                noise_ppm = lerp_clamped tau (zip nx ny);
                MES_threshold = lerp_clamped tau (zip tx ty);
                numTransits = D * f / P;
                MES = depth_ppm / noise_ppm * sqrt numTransits
            in Inr (Fin (gamma_cdf tb 4.65 0 0.98 (MES - 4.1 - (MES_threshold - 7.1)))))"
  using get_pdet_lerp(2)[OF tb st curves dom refl, of r]
  by (simp add: mes_offset_def Let_def pgam_def)

theorem get_pdet_formula_witness:
  "get_pdet kepler_tables quiet_star (Fin 215) (Fin 365.25) (Fin 1) (Fin 0) =
     (let tau = 0.25 * 365.25 * sqrt (1 - 0\<^sup>2) / 215 * 24;
          k = 1 * 0.009171 / 1;
          depth_ppm = 0.84 * k\<^sup>2 * (1.0874 + 1.0187 * k) * 1000000;
          noise_ppm = lerp_clamped tau (zip thresh (replicate 14 30));
          MES_threshold = lerp_clamped tau (zip thresh (replicate 14 7.1));
          numTransits = 1460 * 0.84 / 365.25;
          MES = depth_ppm / noise_ppm * sqrt numTransits
      in Inr (Fin (gamma_cdf kepler_tables 4.65 0 0.98 (MES - 4.1 - (MES_threshold - 7.1)))))"
  by (rule get_pdet_formula) (simp_all add: kepler_tables_def quiet_star_def thresh_def)

section \<open>Window function\<close>

lemma get_pwin_regular:
  assumes "dataspan st = Fin D" "dutycycle st = Fin f" "f < 1" "P \<noteq> 0"
  shows "get_pwin st (Fin P) =
           Fin (if D / P < 2 \<or> pw_raw (D / P) f < 0 then 0 else pw_raw (D / P) f)"
  using assms
  by (auto simp add: get_pwin_def fl_pow_pos of_mask_def pw_raw_def power2_eq_square Let_def
      algebra_simps)

lemma get_pwin_no_gaps:
  assumes "dataspan st = Fin D" "dutycycle st = Fin 1" "0 < D" "0 < P" "D / P < 2"
  shows "get_pwin st (Fin P) = NaN"
proof -
  define M where "M = D / P"
  have M: "0 < M" "M < 2" using assms by (simp_all add: M_def)
  have p0: "fl_pow (Fin 0) (Fin M) = Fin 0" using M by (simp add: fl_pow_def)
  have p2: "fl_pow (Fin 0) (Fin (M - 2)) = PInf" using M by (simp add: fl_pow_def)
  consider (lt) "M < 1" | (eq) "M = 1" | (gt) "1 < M" by linarith
  then have "Fin 1 - fl_pow (Fin 0) (Fin M) - Fin M * Fin 1 * fl_pow (Fin 0) (Fin (M - 1))
               - Fin 0.5 * Fin M * Fin (M - 1) * Fin 1 * Fin 1 * fl_pow (Fin 0) (Fin (M - 2))
             \<in> {NInf, NaN}"
  proof cases
    case lt
    then have "fl_pow (Fin 0) (Fin (M - 1)) = PInf" by (simp add: fl_pow_def)
    then show ?thesis using M lt
      by (simp add: p0 p2 times_fl_def inf_sgn_def minus_fl_def uminus_fl_def plus_fl_def)
  next
    case eq
    show ?thesis unfolding eq
      by (simp add: fl_pow_def times_fl_def inf_sgn_def)
  next
    case gt
    then have "fl_pow (Fin 0) (Fin (M - 1)) = Fin 0" by (simp add: fl_pow_def)
    then show ?thesis using M gt
      by (simp add: p0 p2 times_fl_def inf_sgn_def minus_fl_def uminus_fl_def plus_fl_def)
  qed
  then show ?thesis
    using assms M
    by (auto simp add: get_pwin_def Let_def M_def[symmetric] of_mask_def fl_ge_def fl_le_def
        fl_lt_def fl_eq_def times_fl_def inf_sgn_def)
qed

text \<open>
  C6. At a star observed without gaps (duty cycle 1) with fewer than two expected
  transits (\<open>M = 1000 / 600\<close>) the raw expression is minus infinity, and the product with
  the mask is NaN: the window function is not 0 there.
\<close>

theorem get_pwin_full_duty:
  "get_pwin full_duty_star (Fin 600) = NaN"
  by (rule get_pwin_no_gaps[where D = 1000]) (simp_all add: full_duty_star_def quiet_star_def)

section \<open>Geometric transit probability\<close>

lemma get_pgeom_regular:
  assumes "a \<noteq> 0" "e\<^sup>2 \<noteq> 1"
  shows "get_pgeom (Fin a) (Fin e) = Fin (if 1 < a then 1 / (a * (1 - e\<^sup>2)) else 0)"
  using assms by (simp add: get_pgeom_def of_mask_def power2_eq_square)

text \<open>
  C7. At \<open>aor = 0\<close> (and \<open>e = 0\<close>) the quotient is infinite and its product with the
  mask \<open>aor > 1\<close> is NaN, not 0.
\<close>

theorem get_pgeom_zero_aor:
  "get_pgeom (Fin 0) (Fin 0) = NaN"
  by (simp add: get_pgeom_def divide_fl_def inf_sgn_def times_fl_def of_mask_def)

section \<open>Invalid inputs\<close>

lemma get_mes_NaN:
  assumes "curves_ok tb st" "radius st = NaN \<or> period = NaN \<or> rp = NaN"
  shows "get_mes tb st period rp tau = Inr NaN"
proof -
  obtain sigma where "np_interp tau (cdpp_vals tb) (cdpp st) = Inr sigma"
    using np_interp_total[of "cdpp_vals tb" "cdpp st" tau] assms(1) by (auto simp add: curves_ok_def)
  then show ?thesis using assms(2) by (auto simp add: get_mes_def Let_def)
qed

lemma get_pdet_NaN:
  assumes "curves_ok tb st" "radius st = NaN \<or> period = NaN \<or> rp = NaN"
  shows "get_pdet tb st aor period rp e = Inr NaN"
proof -
  let ?tau = "get_duration period aor e * Fin 24.0"
  obtain mest where "np_interp ?tau (mesthres_vals tb) (mesthres st) = Inr mest"
    using np_interp_total[of "mesthres_vals tb" "mesthres st" ?tau] assms(1)
    by (auto simp add: curves_ok_def)
  then show ?thesis
    using get_mes_NaN[OF assms, of ?tau] by (simp add: get_pdet_def Let_def)
qed

text \<open>
  C2 (as the code has it). Invalid inputs are not masked. For a star with one value per
  duration in non-empty tables, \<^verbatim>\<open>get_completeness\<close> raises nothing, and where the radius
  of the star, the period or the planet radius is NaN it returns NaN, with or without the
  geometric factor.
\<close>

theorem get_completeness_NaN:
  assumes "curves_ok tb st"
  shows "(\<exists>v. get_completeness tb st period rp e with_geom = Inr v) \<and>
         (radius st = NaN \<or> period = NaN \<or> rp = NaN \<longrightarrow>
            get_completeness tb st period rp e with_geom = Inr NaN)"
proof (intro conjI impI)
  obtain pdet where "get_pdet tb st (get_a period (mass st) / radius st) period rp e = Inr pdet"
    using get_pdet_total[OF assms] by blast
  then show "\<exists>v. get_completeness tb st period rp e with_geom = Inr v"
    by (simp add: get_completeness_def Let_def)
next
  assume "radius st = NaN \<or> period = NaN \<or> rp = NaN"
  from get_pdet_NaN[OF assms this]
  show "get_completeness tb st period rp e with_geom = Inr NaN"
    by (simp add: get_completeness_def Let_def)
qed

theorem get_completeness_NaN_witness:
  "get_completeness kepler_tables quiet_star NaN (Fin 1) (Fin 0) True = Inr NaN"
proof -
  have "curves_ok kepler_tables quiet_star"
    by (simp add: curves_ok_def kepler_tables_def quiet_star_def thresh_def)
  from get_completeness_NaN[OF this, THEN conjunct2, THEN mp, of NaN] show ?thesis by simp
qed

lemma get_completeness_empty_curve:
  "cdpp_vals tb = [] \<Longrightarrow> get_completeness tb st period rp e with_geom = Inl ValueError"
  by (simp add: get_completeness_def get_pdet_def get_mes_def np_interp_def Let_def)

text \<open>
  C2 (as the specification has it) fails: a star whose radius is NaN has detection
  probability NaN, not 0.
\<close>

theorem get_completeness_zero_counterexample:
  "get_completeness kepler_tables (quiet_star\<lparr>radius := NaN\<rparr>)
     (Fin 365.25) (Fin 1) (Fin 0) False \<noteq> Inr (Fin 0)"
proof -
  have "get_pdet kepler_tables (quiet_star\<lparr>radius := NaN\<rparr>) aor (Fin 365.25) (Fin 1) (Fin 0)
          = Inr NaN" for aor
    by (rule get_pdet_NaN) (simp_all add: curves_ok_def kepler_tables_def quiet_star_def thresh_def)
  then show ?thesis by (simp add: get_completeness_def Let_def)
qed

section \<open>Range and monotonicity of the detection probability\<close>

lemma Go4pi_pos: "0 < Go4pi"
  by (simp add: Go4pi_def)

lemma get_a_Fin:
  assumes "0 < P" "0 < Ms"
  shows "get_a (Fin P) (Fin Ms) = Fin ((Go4pi * P * P * Ms) powr (1 / 3))"
  using assms Go4pi_pos by (simp add: get_a_def fl_pow_pos)

lemma pw_raw_le_one:
  assumes "0 \<le> f" "f < 1" "2 \<le> M"
  shows "pw_raw M f \<le> 1"
proof -
  have "0 \<le> (1 - f) powr M" by simp
  moreover have "0 \<le> M * f * (1 - f) powr (M - 1)" using assms by simp
  moreover have "0 \<le> 0.5 * M * (M - 1) * f\<^sup>2 * (1 - f) powr (M - 2)" using assms by simp
  ultimately show ?thesis unfolding pw_raw_def by linarith
qed

lemma get_pwin_range:
  assumes "dataspan st = Fin D" "dutycycle st = Fin f" "0 \<le> f" "f < 1" "P \<noteq> 0"
  shows "\<exists>w. get_pwin st (Fin P) = Fin w \<and> 0 \<le> w \<and> w \<le> 1"
proof (cases "D / P < 2 \<or> pw_raw (D / P) f < 0")
  case True
  then show ?thesis using get_pwin_regular[OF assms(1,2,4,5)] by auto
next
  case False
  then have "pw_raw (D / P) f \<le> 1" "0 \<le> pw_raw (D / P) f"
    using pw_raw_le_one[of f "D / P"] assms by auto
  then show ?thesis using False get_pwin_regular[OF assms(1,2,4,5)] by auto
qed

lemma get_pdet_offset:
  assumes tb: "cdpp_vals tb = map Fin nx" "mesthres_vals tb = map Fin tx"
    and st: "cdpp st = map Fin ny" "mesthres st = map Fin ty"
      "radius st = Fin R" "dataspan st = Fin D" "dutycycle st = Fin f"
    and curves: "sorted_wrt (<) nx" "nx \<noteq> []" "length ny = length nx"
      "sorted_wrt (<) tx" "tx \<noteq> []" "length ty = length tx"
      "\<forall>y\<in>set ny. 0 < y"
    and dom: "0 < R" "0 \<le> D" "0 \<le> f" "0 < P" "0 < A" "\<epsilon>\<^sup>2 \<le> 1"
  shows "\<exists>noise thr. 0 < noise \<and>
           (\<forall>r. get_pdet tb st (Fin A) (Fin P) (Fin r) (Fin \<epsilon>) =
                  Inr (Fin (pgam tb (mes_offset noise thr R (D * f / P) r))))"
  using get_pdet_lerp[OF tb st curves dom refl] by blast

lemma mes_offset_mono:
  assumes "0 < noise" "0 < R" "0 \<le> N" "0 \<le> r1" "r1 \<le> r2"
  shows "mes_offset noise thr R N r1 \<le> mes_offset noise thr R N r2"
proof -
  define k1 where "k1 = r1 * 0.009171 / R"
  define k2 where "k2 = r2 * 0.009171 / R"
  have k: "0 \<le> k1" "k1 \<le> k2" using assms by (simp_all add: k1_def k2_def divide_right_mono)
  have sq: "k1\<^sup>2 \<le> k2\<^sup>2" using k by (simp add: power_mono)
  have lin: "1.0874 + 1.0187 * k1 \<le> 1.0874 + 1.0187 * k2" "0 \<le> 1.0874 + 1.0187 * k1"
    using k by simp_all
  have "k1\<^sup>2 * (1.0874 + 1.0187 * k1) \<le> k2\<^sup>2 * (1.0874 + 1.0187 * k2)"
    using sq lin by (intro mult_mono) simp_all
  then have "0.84 * k1\<^sup>2 * (1.0874 + 1.0187 * k1) * 1000000
              \<le> 0.84 * k2\<^sup>2 * (1.0874 + 1.0187 * k2) * 1000000"
    by simp
  then have "0.84 * k1\<^sup>2 * (1.0874 + 1.0187 * k1) * 1000000 / noise
              \<le> 0.84 * k2\<^sup>2 * (1.0874 + 1.0187 * k2) * 1000000 / noise"
    using assms(1) by (simp add: divide_right_mono)
  then have "0.84 * k1\<^sup>2 * (1.0874 + 1.0187 * k1) * 1000000 / noise * sqrt N
              \<le> 0.84 * k2\<^sup>2 * (1.0874 + 1.0187 * k2) * 1000000 / noise * sqrt N"
    using assms(3) by (intro mult_right_mono) simp_all
  then show ?thesis
    by (simp add: mes_offset_def Let_def k1_def k2_def)
qed

lemma get_completeness_regular:
  assumes tb: "cdpp_vals tb = map Fin nx" "mesthres_vals tb = map Fin tx"
    and st: "cdpp st = map Fin ny" "mesthres st = map Fin ty"
      "radius st = Fin R" "dataspan st = Fin D" "dutycycle st = Fin f"
    and curves: "sorted_wrt (<) nx" "nx \<noteq> []" "length ny = length nx"
      "sorted_wrt (<) tx" "tx \<noteq> []" "length ty = length tx"
      "\<forall>y\<in>set ny. 0 < y"
    and ms: "mass st = Fin Ms" "0 < Ms"
    and dom: "0 < R" "0 \<le> D" "0 \<le> f" "f < 1" "0 < P" "\<epsilon>\<^sup>2 < 1"
  shows "\<exists>noise thr w g. 0 < noise \<and> 0 \<le> w \<and> w \<le> 1 \<and> 0 \<le> g \<and>
           (\<forall>r wg. get_completeness tb st (Fin P) (Fin r) (Fin \<epsilon>) wg =
                  Inr (Fin (pgam tb (mes_offset noise thr R (D * f / P) r) * w
                            * (if wg then g else 1))))"
proof -
  define A where "A = (Go4pi * P * P * Ms) powr (1 / 3) / R"
  have Apos: "0 < A" using dom ms Go4pi_pos by (simp add: A_def)
  have aor: "get_a (Fin P) (mass st) / radius st = Fin A"
    using get_a_Fin[of P Ms] dom ms st by (simp add: A_def)
  have e1: "\<epsilon>\<^sup>2 \<le> 1" "\<epsilon>\<^sup>2 \<noteq> 1" using dom by simp_all
  obtain noise thr where np: "0 < noise"
    and pd: "\<And>r. get_pdet tb st (Fin A) (Fin P) (Fin r) (Fin \<epsilon>) =
                  Inr (Fin (pgam tb (mes_offset noise thr R (D * f / P) r)))"
    using get_pdet_offset[OF tb st curves dom(1,2,3,5) Apos e1(1)] by blast
  obtain w where w: "get_pwin st (Fin P) = Fin w" "0 \<le> w" "w \<le> 1"
    using get_pwin_range[OF st(4,5) dom(3,4), of P] dom by auto
  define g where "g = (if 1 < A then 1 / (A * (1 - \<epsilon>\<^sup>2)) else 0)"
  have g: "get_pgeom (Fin A) (Fin \<epsilon>) = Fin g"
    using get_pgeom_regular[of A \<epsilon>] Apos e1 by (simp add: g_def)
  have gpos: "0 \<le> g" using Apos dom by (simp add: g_def)
  have "get_completeness tb st (Fin P) (Fin r) (Fin \<epsilon>) wg =
          Inr (Fin (pgam tb (mes_offset noise thr R (D * f / P) r) * w * (if wg then g else 1)))"
    for r wg
    by (simp add: get_completeness_def Let_def aor pd w g)
  then show ?thesis using np w gpos by blast
qed

lemma get_completeness_range:
  assumes tb: "cdpp_vals tb = map Fin nx" "mesthres_vals tb = map Fin tx"
    and st: "cdpp st = map Fin ny" "mesthres st = map Fin ty"
      "radius st = Fin R" "dataspan st = Fin D" "dutycycle st = Fin f"
    and curves: "sorted_wrt (<) nx" "nx \<noteq> []" "length ny = length nx"
      "sorted_wrt (<) tx" "tx \<noteq> []" "length ty = length tx"
      "\<forall>y\<in>set ny. 0 < y"
    and ms: "mass st = Fin Ms" "0 < Ms"
    and dom: "0 < R" "0 \<le> D" "0 \<le> f" "f < 1" "0 < P"
    and G: "\<forall>x. 0 \<le> pgam tb x \<and> pgam tb x \<le> 1"
  shows "\<exists>v. get_completeness tb st (Fin P) (Fin r) (Fin 0) False = Inr (Fin v) \<and> 0 \<le> v \<and> v \<le> 1"
proof -
  have "(0::real)\<^sup>2 < 1" by simp
  from get_completeness_regular[OF tb st curves ms dom this]
  obtain noise thr w g where w: "0 \<le> w" "w \<le> 1"
    and gc: "\<And>r wg. get_completeness tb st (Fin P) (Fin r) (Fin 0) wg =
                  Inr (Fin (pgam tb (mes_offset noise thr R (D * f / P) r) * w
                            * (if wg then g else 1)))"
    by blast
  let ?p = "pgam tb (mes_offset noise thr R (D * f / P) r)"
  have p: "0 \<le> ?p" "?p \<le> 1" using G by simp_all
  have "0 \<le> ?p * w" using p w by simp
  moreover have "?p * w \<le> 1 * 1" using p w by (intro mult_mono) simp_all
  ultimately show ?thesis using gc[of r False] by simp
qed

lemma get_completeness_mono:
  assumes tb: "cdpp_vals tb = map Fin nx" "mesthres_vals tb = map Fin tx"
    and st: "cdpp st = map Fin ny" "mesthres st = map Fin ty"
      "radius st = Fin R" "dataspan st = Fin D" "dutycycle st = Fin f"
    and curves: "sorted_wrt (<) nx" "nx \<noteq> []" "length ny = length nx"
      "sorted_wrt (<) tx" "tx \<noteq> []" "length ty = length tx"
      "\<forall>y\<in>set ny. 0 < y"
    and ms: "mass st = Fin Ms" "0 < Ms"
    and dom: "0 < R" "0 \<le> D" "0 \<le> f" "f < 1" "0 < P" "\<epsilon>\<^sup>2 < 1"
    and G: "\<forall>x y. x \<le> y \<longrightarrow> pgam tb x \<le> pgam tb y"
    and r: "0 \<le> r1" "r1 \<le> r2"
  shows "\<exists>v1 v2. get_completeness tb st (Fin P) (Fin r1) (Fin \<epsilon>) wg = Inr (Fin v1) \<and>
                 get_completeness tb st (Fin P) (Fin r2) (Fin \<epsilon>) wg = Inr (Fin v2) \<and> v1 \<le> v2"
proof -
  from get_completeness_regular[OF tb st curves ms dom]
  obtain noise thr w g where np: "0 < noise" and w: "0 \<le> w" and g: "0 \<le> g"
    and gc: "\<And>r wg. get_completeness tb st (Fin P) (Fin r) (Fin \<epsilon>) wg =
                  Inr (Fin (pgam tb (mes_offset noise thr R (D * f / P) r) * w
                            * (if wg then g else 1)))"
    by blast
  have N: "0 \<le> D * f / P" using dom by simp
  have "mes_offset noise thr R (D * f / P) r1 \<le> mes_offset noise thr R (D * f / P) r2"
    by (rule mes_offset_mono[OF np dom(1) N r])
  then have "pgam tb (mes_offset noise thr R (D * f / P) r1)
              \<le> pgam tb (mes_offset noise thr R (D * f / P) r2)"
    using G by blast
  then have "pgam tb (mes_offset noise thr R (D * f / P) r1) * w * (if wg then g else 1)
              \<le> pgam tb (mes_offset noise thr R (D * f / P) r2) * w * (if wg then g else 1)"
    using w g by (intro mult_right_mono) simp_all
  then show ?thesis using gc[of r1 wg] gc[of r2 wg] by simp
qed

lemma ramp_cdf_range: "0 \<le> pgam kepler_tables x \<and> pgam kepler_tables x \<le> 1"
proof -
  have "0 \<le> z / (4.65 + z) \<and> z / (4.65 + z) \<le> 1" if "0 < z" for z :: real
    using that by (simp add: field_simps)
  then show ?thesis
    by (auto simp add: pgam_def kepler_tables_def ramp_cdf_def Let_def)
qed

lemma ramp_cdf_mono: "x \<le> y \<Longrightarrow> pgam kepler_tables x \<le> pgam kepler_tables y"
proof -
  have m: "u / (4.65 + u) \<le> v / (4.65 + v)" if "0 < u" "u \<le> v" for u v :: real
    using that by (simp add: field_simps)
  have p: "0 \<le> v / (4.65 + v)" if "0 < v" for v :: real
    using that by simp
  assume "x \<le> y"
  then have xy: "x / 0.98 \<le> y / 0.98" by simp
  show ?thesis
  proof (cases "x / 0.98 \<le> 0")
    case True
    then show ?thesis using p[of "y / 0.98"]
      by (auto simp add: pgam_def kepler_tables_def ramp_cdf_def Let_def)
  next
    case False
    then have "0 < x / 0.98" by simp
    from m[OF this xy] False xy show ?thesis
      by (auto simp add: pgam_def kepler_tables_def ramp_cdf_def Let_def)
  qed
qed

lemma get_completeness_range_example:
  "\<exists>v. get_completeness kepler_tables quiet_star (Fin 365.25) (Fin 1) (Fin 0) False = Inr (Fin v)
       \<and> 0 \<le> v \<and> v \<le> 1"
proof (rule get_completeness_range[where nx = thresh and tx = thresh
        and ny = "replicate 14 30" and ty = "replicate 14 7.1" and Ms = 1 and R = 1
        and D = 1460 and f = "0.84"])
  show "\<forall>x. 0 \<le> pgam kepler_tables x \<and> pgam kepler_tables x \<le> 1"
    using ramp_cdf_range by blast
qed (simp_all add: kepler_tables_def quiet_star_def thresh_def)

lemma get_completeness_mono_example:
  "\<exists>v1 v2. get_completeness kepler_tables quiet_star (Fin 365.25) (Fin 1) (Fin 0) True = Inr (Fin v1)
         \<and> get_completeness kepler_tables quiet_star (Fin 365.25) (Fin 2) (Fin 0) True = Inr (Fin v2)
         \<and> v1 \<le> v2"
proof (rule get_completeness_mono[where nx = thresh and tx = thresh
        and ny = "replicate 14 30" and ty = "replicate 14 7.1" and Ms = 1 and R = 1
        and D = 1460 and f = "0.84"])
  show "\<forall>x y. x \<le> y \<longrightarrow> pgam kepler_tables x \<le> pgam kepler_tables y"
    using ramp_cdf_mono by blast
qed (simp_all add: kepler_tables_def quiet_star_def thresh_def)

lemma get_completeness_no_gaps:
  assumes "curves_ok tb st" "dataspan st = Fin D" "dutycycle st = Fin 1"
    "0 < D" "0 < P" "D / P < 2"
  shows "get_completeness tb st (Fin P) rp e with_geom = Inr NaN"
proof -
  obtain pdet where "get_pdet tb st (get_a (Fin P) (mass st) / radius st) (Fin P) rp e = Inr pdet"
    using get_pdet_total[OF assms(1)] by blast
  then show ?thesis
    using get_pwin_no_gaps[OF assms(2-6)] by (simp add: get_completeness_def Let_def)
qed

lemma cube_root_of_cube:
  fixes x :: real
  assumes "0 < x"
  shows "(x * x * x) powr (1 / 3) = x"
proof -
  have "x * x * x = x powr 3" using assms by (simp add: power3_eq_cube)
  then have "(x * x * x) powr (1 / 3) = (x powr 3) powr (1 / 3)" by (simp only:)
  also have "\<dots> = x powr (3 * (1 / 3))" by (rule powr_powr)
  also have "\<dots> = x" using assms by simp
  finally show ?thesis .
qed

lemma aor_full_duty_bounds:
  "240 \<le> (Go4pi * 600 * 600 * 1) powr (1 / 3)" "(Go4pi * 600 * 600 * 1) powr (1 / 3) \<le> 2400"
proof -
  have up: "pi * pi < 4 * 4" using pi_less_4 pi_gt_zero by (intro mult_strict_mono) simp_all
  have lo: "2 * 2 \<le> pi * pi" using pi_ge_two by (intro mult_mono) simp_all
  have "13824000 * (4 * (pi * pi)) \<le> 2945.4625385377644 * 360000" using up by simp
  then have a: "240 * 240 * 240 \<le> Go4pi * 600 * 600 * 1"
    using pi_gt_zero by (simp add: Go4pi_def field_simps)
  have "2945.4625385377644 * 360000 \<le> 13824000000 * (4 * (pi * pi))" using lo by simp
  then have b: "Go4pi * 600 * 600 * 1 \<le> 2400 * 2400 * 2400"
    using pi_gt_zero by (simp add: Go4pi_def field_simps)
  have c240: "(240 * 240 * 240) powr (1 / 3) = (240::real)"
    by (rule cube_root_of_cube) simp
  have "(240 * 240 * 240) powr (1 / 3) \<le> (Go4pi * 600 * 600 * 1) powr (1 / 3)"
    by (rule powr_mono2[OF _ _ a]) simp_all
  then show "240 \<le> (Go4pi * 600 * 600 * 1) powr (1 / 3)"
    unfolding c240 .
  have g: "0 \<le> Go4pi * 600 * 600 * 1" using Go4pi_pos by simp
  have c2400: "(2400 * 2400 * 2400) powr (1 / 3) = (2400::real)"
    by (rule cube_root_of_cube) simp
  have "(Go4pi * 600 * 600 * 1) powr (1 / 3) \<le> (2400 * 2400 * 2400) powr (1 / 3)"
    by (rule powr_mono2[OF _ g b]) simp
  then show "(Go4pi * 600 * 600 * 1) powr (1 / 3) \<le> 2400"
    unfolding c2400 .
qed

lemma duration_full_duty:
  "fl_le (Fin 1.5)
     (get_duration (Fin 600) (get_a (Fin 600) (mass full_duty_star) / radius full_duty_star)
        (Fin 0) * Fin 24.0)"
  "fl_le (get_duration (Fin 600) (get_a (Fin 600) (mass full_duty_star) / radius full_duty_star)
        (Fin 0) * Fin 24.0) (Fin 15)"
proof -
  define A where "A = (Go4pi * 600 * 600 * 1) powr (1 / 3)"
  have A: "240 \<le> A" "A \<le> 2400" using aor_full_duty_bounds by (simp_all add: A_def)
  have aor: "get_a (Fin 600) (mass full_duty_star) / radius full_duty_star = Fin A"
    using get_a_Fin[of 600 1] by (simp add: full_duty_star_def quiet_star_def A_def)
  have dur: "get_duration (Fin 600) (Fin A) (Fin 0) * Fin 24.0 = Fin (3600 / A)"
    using A by (simp add: get_duration_def fl_pow_two fl_sqrt_Fin)
  have "1.5 \<le> 3600 / A" "3600 / A \<le> 15" using A by (simp_all add: field_simps)
  then show
    "fl_le (Fin 1.5)
       (get_duration (Fin 600) (get_a (Fin 600) (mass full_duty_star) / radius full_duty_star)
          (Fin 0) * Fin 24.0)"
    "fl_le (get_duration (Fin 600) (get_a (Fin 600) (mass full_duty_star) / radius full_duty_star)
          (Fin 0) * Fin 24.0) (Fin 15)"
    unfolding aor dur by simp_all
qed

text \<open>
  C8. At a star that satisfies the invariants of the data model, observed without gaps
  (duty cycle 1), and a period with fewer than two expected transits, whose transit
  duration lies inside the tables (between 1.5 and 15 hours), the detection probability
  without the geometric factor is NaN, which is not in \<open>[0, 1]\<close>: the window function
  is NaN there. For every duty cycle below 1 (and positive noise) the probability is in
  \<open>[0, 1]\<close>, by \<open>get_completeness_range\<close>.
\<close>

theorem get_completeness_full_duty:
  "fl_le (Fin 1.5)
     (get_duration (Fin 600) (get_a (Fin 600) (mass full_duty_star) / radius full_duty_star)
        (Fin 0) * Fin 24.0) \<and>
   fl_le (get_duration (Fin 600) (get_a (Fin 600) (mass full_duty_star) / radius full_duty_star)
        (Fin 0) * Fin 24.0) (Fin 15) \<and>
   get_completeness kepler_tables full_duty_star (Fin 600) (Fin 1) (Fin 0) False = Inr NaN"
proof -
  have "get_completeness kepler_tables full_duty_star (Fin 600) (Fin 1) (Fin 0) False = Inr NaN"
    by (rule get_completeness_no_gaps[where D = 1000])
       (simp_all add: curves_ok_def kepler_tables_def full_duty_star_def quiet_star_def thresh_def)
  then show ?thesis using duration_full_duty by simp
qed






section \<open>Occurrence density\<close>

lemma population_at_unfold:
  "population_at (lnf0, beta, alpha) period rp =
     fl_exp lnf0
     * (fl_pow period beta * (beta + Fin 1)
          / (fl_pow (Fin 300) (beta + Fin 1) - fl_pow (Fin 50) (beta + Fin 1)))
     * (fl_pow rp alpha * (alpha + Fin 1)
          / (fl_pow (Fin 2.5) (alpha + Fin 1) - fl_pow (Fin 0.75) (alpha + Fin 1)))"
  by (simp add: population_at_def power_law_def period_rng_def rp_rng_def Let_def)

lemma powr_base_inj:
  fixes a b :: real
  assumes "0 < a" "0 < b" "a \<noteq> b" "x \<noteq> 0"
  shows "a powr x \<noteq> b powr x"
proof
  assume "a powr x = b powr x"
  then have "x * ln a = x * ln b" using assms by (simp add: powr_def)
  then have "ln a = ln b" using assms by simp
  then show False using assms by simp
qed

text \<open>
  C4. For every parameter vector \<open>(lnf0, beta, alpha)\<close> and every period and radius the
  occurrence density is \<open>exp lnf0\<close> times the product over the two dimensions of
  \<open>x ** n * (n + 1) / (hi ** (n + 1) - lo ** (n + 1))\<close>, with the domain \<open>[50, 300]\<close>
  for the period and \<open>[0.75, 2.5]\<close> for the radius; this holds in the arithmetic of the
  code for all values (at \<open>n = -1\<close> both sides are the NaN of \<open>0 / 0\<close>), and for
  finite parameters with \<open>n \<noteq> -1\<close> and a period and radius in the domain it is the
  real number the formula denotes.
\<close>

theorem population_model_formula:
  "population_model [lnf0, beta, alpha] period rp =
     Inr (fl_exp lnf0
          * (fl_pow period beta * (beta + Fin 1)
               / (fl_pow (Fin 300) (beta + Fin 1) - fl_pow (Fin 50) (beta + Fin 1)))
          * (fl_pow rp alpha * (alpha + Fin 1)
               / (fl_pow (Fin 2.5) (alpha + Fin 1) - fl_pow (Fin 0.75) (alpha + Fin 1))))
   \<and> (50 \<le> p \<and> p \<le> 300 \<and> 0.75 \<le> r \<and> r \<le> 2.5 \<and> b \<noteq> - 1 \<and> a \<noteq> - 1 \<longrightarrow>
        population_model [Fin l, Fin b, Fin a] (Fin p) (Fin r) =
          Inr (Fin (exp l
                    * (p powr b * (b + 1) / (300 powr (b + 1) - 50 powr (b + 1)))
                    * (r powr a * (a + 1) / (2.5 powr (a + 1) - 0.75 powr (a + 1))))))"
proof (intro conjI impI)
  show "population_model [lnf0, beta, alpha] period rp =
     Inr (fl_exp lnf0
          * (fl_pow period beta * (beta + Fin 1)
               / (fl_pow (Fin 300) (beta + Fin 1) - fl_pow (Fin 50) (beta + Fin 1)))
          * (fl_pow rp alpha * (alpha + Fin 1)
               / (fl_pow (Fin 2.5) (alpha + Fin 1) - fl_pow (Fin 0.75) (alpha + Fin 1))))"
    by (simp add: population_model_def unpack3_def population_at_unfold)
next
  assume h: "50 \<le> p \<and> p \<le> 300 \<and> 0.75 \<le> r \<and> r \<le> 2.5 \<and> b \<noteq> - 1 \<and> a \<noteq> - 1"
  then have pos: "0 < p" "0 < r" and n1: "b + 1 \<noteq> 0" "a + 1 \<noteq> 0" by auto
  have d1: "(300::real) powr (b + 1) - 50 powr (b + 1) \<noteq> 0"
    using powr_base_inj[of 300 50 "b + 1"] n1 by simp
  have d2: "(2.5::real) powr (a + 1) - 0.75 powr (a + 1) \<noteq> 0"
    using powr_base_inj[of "2.5" "0.75" "a + 1"] n1 by simp
  show "population_model [Fin l, Fin b, Fin a] (Fin p) (Fin r) =
          Inr (Fin (exp l
                    * (p powr b * (b + 1) / (300 powr (b + 1) - 50 powr (b + 1)))
                    * (r powr a * (a + 1) / (2.5 powr (a + 1) - 0.75 powr (a + 1)))))"
    using pos d1 d2
    by (simp add: population_model_def unpack3_def population_at_unfold fl_pow_pos fl_exp_def)
qed

theorem population_model_formula_witness:
  "population_model [Fin (ln 0.75), Fin (- 0.53218), Fin (- 1.5)] (Fin 100) (Fin 1) =
     Inr (Fin (exp (ln 0.75)
               * (100 powr (- 0.53218) * (- 0.53218 + 1)
                    / (300 powr (- 0.53218 + 1) - 50 powr (- 0.53218 + 1)))
               * (1 powr (- 1.5) * (- 1.5 + 1) / (2.5 powr (- 1.5 + 1) - 0.75 powr (- 1.5 + 1)))))"
proof -
  have "(50::real) \<le> 100 \<and> (100::real) \<le> 300 \<and> (0.75::real) \<le> 1 \<and> (1::real) \<le> 2.5
          \<and> (- 0.53218::real) \<noteq> - 1 \<and> (- 1.5::real) \<noteq> - 1"
    by simp
  from population_model_formula[THEN conjunct2, THEN mp, OF this] show ?thesis .
qed

lemma population_model_minus_one:
  assumes "0 < p"
  shows "population_model [Fin l, Fin (- 1), alpha] (Fin p) rp = Inr NaN"
proof -
  have "fl_pow (Fin p) (Fin (- 1)) * (Fin (- 1) + Fin 1)
          / (fl_pow (Fin 300) (Fin (- 1) + Fin 1) - fl_pow (Fin 50) (Fin (- 1) + Fin 1)) = NaN"
    using assms by (simp add: fl_pow_pos divide_fl_def inf_sgn_def)
  then show ?thesis
    by (simp add: population_model_def unpack3_def population_at_unfold)
qed

section \<open>Arrays as tables\<close>

lemma map2_upt: "map2 g (map f [0..<n]) (map f' [0..<n]) = map (\<lambda>i. g (f i) (f' i)) [0..<n]"
  by (simp add: zip_map_map zip_same_conv_map)

lemma butlast_map_upt: "butlast (map f [0..<n]) = map f [0..<n - 1]"
proof (rule nth_equalityI)
  show "length (butlast (map f [0..<n])) = length (map f [0..<n - 1])" by simp
next
  fix i assume "i < length (butlast (map f [0..<n]))"
  then show "butlast (map f [0..<n]) ! i = map f [0..<n - 1] ! i"
    by (simp add: nth_butlast)
qed

lemma tl_map_upt: "tl (map f [0..<n]) = map (\<lambda>i. f (i + 1)) [0..<n - 1]"
proof (rule nth_equalityI)
  show "length (tl (map f [0..<n])) = length (map (\<lambda>i. f (i + 1)) [0..<n - 1])" by simp
next
  fix i assume "i < length (tl (map f [0..<n]))"
  then show "tl (map f [0..<n]) ! i = map (\<lambda>i. f (i + 1)) [0..<n - 1] ! i"
    by (simp add: nth_tl)
qed

lemma sum_list_map_upt: "sum_list (map f [0..<n]) = (\<Sum>i<n. f i)"
  by (simp add: interv_sum_list_conv_sum_set_nat atLeast0LessThan)

lemma list_as_map_upt: "xs = map (\<lambda>i. xs ! i) [0..<length xs]"
  by (simp add: map_nth)

lemma map2_tab:
  "map2 (map2 g) (tab m n f) (tab m n f') = tab m n (\<lambda>i j. g (f i j) (f' i j))"
  by (simp add: tab_def map2_upt)

lemma map_map_tab: "map (map g) (tab m n f) = tab m n (\<lambda>i j. g (f i j))"
  by (simp add: tab_def comp_def)

lemma butlast_tab: "butlast (tab m n f) = tab (m - 1) n f"
  by (simp add: tab_def butlast_map_upt)

lemma map_butlast_tab: "map butlast (tab m n f) = tab m (n - 1) f"
  by (simp add: tab_def butlast_map_upt comp_def)

lemma tl_tab: "tl (tab m n f) = tab (m - 1) n (\<lambda>i j. f (i + 1) j)"
  by (simp add: tab_def tl_map_upt)

lemma map_tl_tab: "map tl (tab m n f) = tab m (n - 1) (\<lambda>i j. f i (j + 1))"
  by (simp add: tab_def tl_map_upt comp_def)

lemma diff1_map_upt: "diff1 (map f [0..<n]) = map (\<lambda>j. f (j + 1) - f j) [0..<n - 1]"
  by (simp add: diff1_def tl_map_upt butlast_map_upt map2_upt)

lemma diff_axis1_tab: "diff_axis1 (tab m n f) = tab m (n - 1) (\<lambda>i j. f i (j + 1) - f i j)"
  by (simp add: diff_axis1_def tab_def diff1_map_upt comp_def)

lemma diff_axis0_tab: "diff_axis0 (tab m n f) = tab (m - 1) n (\<lambda>i j. f (i + 1) j - f i j)"
  unfolding diff_axis0_def tl_tab butlast_tab by (rule map2_tab)

lemma sum2_tab: "sum2 (tab m n f) = (\<Sum>i<m. \<Sum>j<n. f i j)"
  by (simp add: sum2_def tab_def comp_def sum_list_map_upt)

lemma const_row: "map (\<lambda>y. x) ys = map (\<lambda>j. x) [0..<length ys]"
  by (rule nth_equalityI) simp_all

lemma meshgrid_tab:
  "meshgrid_ij xs ys =
     (tab (length xs) (length ys) (\<lambda>i j. xs ! i), tab (length xs) (length ys) (\<lambda>i j. ys ! j))"
proof -
  have "map (\<lambda>x. map (\<lambda>y. x) ys) xs = tab (length xs) (length ys) (\<lambda>i j. xs ! i)"
  proof (rule nth_equalityI)
    show "length (map (\<lambda>x. map (\<lambda>y. x) ys) xs) = length (tab (length xs) (length ys) (\<lambda>i j. xs ! i))"
      by (simp add: tab_def)
  next
    fix i assume "i < length (map (\<lambda>x. map (\<lambda>y. x) ys) xs)"
    then have "i < length xs" by simp
    then show "map (\<lambda>x. map (\<lambda>y. x) ys) xs ! i = tab (length xs) (length ys) (\<lambda>i j. xs ! i) ! i"
      using const_row[of "xs ! i" ys] by (simp add: tab_def)
  qed
  moreover have "map (\<lambda>x. ys) xs = tab (length xs) (length ys) (\<lambda>i j. ys ! j)"
    by (rule nth_equalityI) (simp_all add: tab_def map_nth)
  ultimately show ?thesis by (simp add: meshgrid_ij_def)
qed

lemma comp_tab:
  assumes "well_shaped d"
  shows "comp d = tab (length (period_axis d)) (length (rp_axis d)) (\<lambda>i j. comp d ! i ! j)"
proof (rule nth_equalityI)
  show "length (comp d) = length (tab (length (period_axis d)) (length (rp_axis d)) (\<lambda>i j. comp d ! i ! j))"
    using assms by (simp add: well_shaped_def tab_def)
next
  fix i assume i: "i < length (comp d)"
  then have "length (comp d ! i) = length (rp_axis d)"
    using assms by (simp add: well_shaped_def)
  then have "comp d ! i = map (\<lambda>j. comp d ! i ! j) [0..<length (rp_axis d)]"
    using list_as_map_upt[of "comp d ! i"] by simp
  then show "comp d ! i = tab (length (period_axis d)) (length (rp_axis d)) (\<lambda>i j. comp d ! i ! j) ! i"
    using i assms by (simp add: well_shaped_def tab_def)
qed

section \<open>Likelihood and posterior\<close>

lemma norm_formula:
  assumes ws: "well_shaped d"
  defines "P \<equiv> period_axis d" and "R \<equiv> rp_axis d"
  shows "sum2 (mul2 (scale2 (Fin 0.5)
            (add2 (butlast (map butlast (mul2 (map2 (map2 rate) (period_grid d) (rp_grid d)) (comp d))))
                  (tl (map tl (mul2 (map2 (map2 rate) (period_grid d) (rp_grid d)) (comp d))))))
          (vol d))
       = (\<Sum>i<length P - 1. \<Sum>j<length R - 1.
            Fin 0.5 * (rate (P ! i) (R ! j) * comp d ! i ! j
                       + rate (P ! (i + 1)) (R ! (j + 1)) * comp d ! (i + 1) ! (j + 1))
            * ((P ! (i + 1) - P ! i) * (R ! (j + 1) - R ! j)))"
proof -
  let ?m = "length P" and ?n = "length R"
  have pg: "period_grid d = tab ?m ?n (\<lambda>i j. P ! i)"
    and rg: "rp_grid d = tab ?m ?n (\<lambda>i j. R ! j)"
    by (simp_all add: period_grid_def rp_grid_def meshgrid_tab P_def R_def)
  have cp: "comp d = tab ?m ?n (\<lambda>i j. comp d ! i ! j)"
    using comp_tab[OF ws] by (simp add: P_def R_def)
  have pop: "mul2 (map2 (map2 rate) (period_grid d) (rp_grid d)) (comp d)
      = tab ?m ?n (\<lambda>i j. rate (P ! i) (R ! j) * comp d ! i ! j)"
    unfolding pg rg map2_tab mul2_def by (subst cp, simp only: map2_tab)
  have v: "vol d = tab (?m - 1) (?n - 1) (\<lambda>i j. (P ! (i + 1) - P ! i) * (R ! (j + 1) - R ! j))"
    unfolding vol_def pg rg diff_axis0_tab diff_axis1_tab map_butlast_tab butlast_tab mul2_def
      map2_tab ..
  have "sum2 (mul2 (scale2 (Fin 0.5)
            (add2 (butlast (map butlast (tab ?m ?n (\<lambda>i j. rate (P ! i) (R ! j) * comp d ! i ! j))))
                  (tl (map tl (tab ?m ?n (\<lambda>i j. rate (P ! i) (R ! j) * comp d ! i ! j))))))
          (tab (?m - 1) (?n - 1) (\<lambda>i j. (P ! (i + 1) - P ! i) * (R ! (j + 1) - R ! j))))
       = (\<Sum>i<length P - 1. \<Sum>j<length R - 1.
            Fin 0.5 * (rate (P ! i) (R ! j) * comp d ! i ! j
                       + rate (P ! (i + 1)) (R ! (j + 1)) * comp d ! (i + 1) ! (j + 1))
            * ((P ! (i + 1) - P ! i) * (R ! (j + 1) - R ! j)))"
    unfolding map_butlast_tab butlast_tab map_tl_tab tl_tab add2_def map2_tab scale2_def
      map_map_tab mul2_def sum2_tab ..
  then show ?thesis by (simp only: pop v)
qed

lemma loglik_formula:
  assumes "length rs = length ps"
  shows "sum_list (map fl_log (map2 rate ps rs)) = (\<Sum>k<length ps. fl_log (rate (ps ! k) (rs ! k)))"
proof -
  have "map fl_log (map2 rate ps rs) = map (\<lambda>k. fl_log (rate (ps ! k) (rs ! k))) [0..<length ps]"
    using assms by (intro nth_equalityI) simp_all
  then show ?thesis by (simp only: sum_list_map_upt)
qed

text \<open>
  C3 (as the code has it). On arrays of the shapes the notebook builds, the
  log-likelihood of \<open>[lnf0, beta, alpha]\<close> is the sum over the detections of the logarithm
  of the occurrence density at the detection's period and radius, minus a quadrature of
  occurrence density times completeness over the grid: the sum over the cells of the cell
  volume \<open>(P[i+1] - P[i]) * (R[j+1] - R[j])\<close>, taken from the grid boundaries, times the
  mean of the integrand at the two opposite corners \<open>(i, j)\<close> and \<open>(i+1, j+1)\<close> of the
  cell (not the integrand at the midpoint of the cell). Where this number is not finite
  the result is minus infinity.
\<close>

theorem lnlike_formula:
  assumes "well_shaped d"
  shows "lnlike d [lnf0, beta, alpha] =
     (let rate = population_at (lnf0, beta, alpha);
          P = period_axis d; R = rp_axis d;
          Q = (\<lambda>i j. rate (P ! i) (R ! j) * comp d ! i ! j);
          norm = (\<Sum>i<length P - 1. \<Sum>j<length R - 1.
                    Fin 0.5 * (Q i j + Q (i + 1) (j + 1))
                    * ((P ! (i + 1) - P ! i) * (R ! (j + 1) - R ! j)));
          ll = (\<Sum>k<length (koi_periods d).
                  fl_log (rate (koi_periods d ! k) (koi_rps d ! k))) - norm
      in Inr (if isfinite ll then ll else NInf))"
proof -
  have len: "length (koi_rps d) = length (koi_periods d)"
    using assms by (simp add: well_shaped_def)
  show ?thesis
    unfolding lnlike_def population_model2_def population_model1_def unpack3_def Let_def
    by (simp only: list.case sum.case norm_formula[OF assms] loglik_formula[OF len])
qed

theorem lnlike_formula_witness:
  "lnlike small_survey [Fin (ln 0.75), Fin (- 0.53218), Fin (- 1.5)] =
     (let rate = population_at (Fin (ln 0.75), Fin (- 0.53218), Fin (- 1.5));
          P = period_axis small_survey; R = rp_axis small_survey;
          Q = (\<lambda>i j. rate (P ! i) (R ! j) * comp small_survey ! i ! j);
          norm = (\<Sum>i<length P - 1. \<Sum>j<length R - 1.
                    Fin 0.5 * (Q i j + Q (i + 1) (j + 1))
                    * ((P ! (i + 1) - P ! i) * (R ! (j + 1) - R ! j)));
          ll = (\<Sum>k<length (koi_periods small_survey).
                  fl_log (rate (koi_periods small_survey ! k) (koi_rps small_survey ! k))) - norm
      in Inr (if isfinite ll then ll else NInf))"
  by (rule lnlike_formula) (simp add: well_shaped_def small_survey_def)

lemma rate_square:
  assumes "0 < p" "0 < r"
  shows "population_at (Fin 0, Fin 2, Fin 0) (Fin p) (Fin r) = Fin (p\<^sup>2 * 3 / 26875000 * (4 / 7))"
  using assms by (simp add: population_at_unfold fl_pow_pos fl_exp_def)

lemma lnlike_one_cell:
  "lnlike one_cell [Fin 0, Fin 2, Fin 0] = Inr (Fin (ln (24 / 37625) - 111 / 86))"
  by (simp add: lnlike_def population_model2_def population_model1_def unpack3_def
      period_grid_def rp_grid_def meshgrid_ij_def vol_def mul2_def add2_def scale2_def sum2_def
      diff_axis0_def diff_axis1_def diff1_def one_cell_def rate_square isfinite_def fl_log_def Let_def)

lemma lnlike_midpoint_one_cell:
  "lnlike_midpoint one_cell [Fin 0, Fin 2, Fin 0] =
     Inr (Fin (ln (24 / 37625) - 147 / 172))"
  by (simp add: lnlike_midpoint_def midpoint_norm_def midpoints_def cell_mean_def unpack3_def
      diff1_def one_cell_def rate_square isfinite_def fl_log_def Let_def)

text \<open>
  C3 (as the specification has it) fails: on one cell with completeness 1 and the density
  \<open>beta = 2\<close>, \<open>alpha = 0\<close> the quadrature of the code is \<open>111 / 86\<close> and the
  midpoint rule is \<open>147 / 172\<close>, so the two log-likelihoods differ.
\<close>

theorem lnlike_midpoint_counterexample:
  "lnlike one_cell [Fin 0, Fin 2, Fin 0] \<noteq> lnlike_midpoint one_cell [Fin 0, Fin 2, Fin 0]"
  unfolding lnlike_one_cell lnlike_midpoint_one_cell by simp

lemma prior_loop_bounds:
  "prior_loop (zip [t0, t1, t2] bounds) =
     (if (\<exists>t\<in>set [t0, t1, t2]. \<not> (fl_lt (Fin (- 5)) t \<and> fl_lt t (Fin 5))) then Some NInf
      else None)"
  by (simp add: bounds_def)

lemma lnlike_total:
  "\<exists>v. lnlike d [t0, t1, t2] = Inr v"
  by (simp add: lnlike_def population_model2_def population_model1_def unpack3_def Let_def)

text \<open>
  C10. For a parameter vector of three components (on arrays of the shapes the notebook
  builds), the log-posterior is minus infinity if a component is not strictly inside
  its bound interval \<open>(-5, 5)\<close>, and the log-likelihood of the vector otherwise; in both
  cases it returns a value and raises nothing.
\<close>

theorem lnprob_prior:
  assumes "length theta = 3" "well_shaped d"
  shows "lnprob d theta =
           (if \<exists>t\<in>set theta. \<not> (fl_lt (Fin (- 5)) t \<and> fl_lt t (Fin 5)) then Inr NInf
            else lnlike d theta)
         \<and> (\<exists>v. lnprob d theta = Inr v)"
proof -
  from assms(1) obtain t0 t1 t2 where th: "theta = [t0, t1, t2]"
    by (cases theta; simp; cases "tl theta"; simp; cases "tl (tl theta)"; simp)
  have eq: "lnprob d theta =
           (if \<exists>t\<in>set theta. \<not> (fl_lt (Fin (- 5)) t \<and> fl_lt t (Fin 5)) then Inr NInf
            else lnlike d theta)"
    unfolding lnprob_def th prior_loop_bounds by simp
  moreover have "\<exists>v. lnprob d theta = Inr v"
    unfolding eq using lnlike_total[of d t0 t1 t2] th by auto
  ultimately show ?thesis by simp
qed

theorem lnprob_prior_witness:
  "lnprob small_survey [Fin 0, Fin 7, Fin 0] = Inr NInf"
  using lnprob_prior[of "[Fin 0, Fin 7, Fin 0]" small_survey]
  by (simp add: well_shaped_def small_survey_def)

end
